theory Spec2Isabelle
  imports Main
begin

unbundle bit_operations_syntax

section \<open>SpawnSubprocess (util/posix/spawn\_subprocess.cc)\<close>

text \<open>
  \<open>SpawnSubprocess\<close> forks; the child optionally runs a hook, calls \<open>setsid\<close>, starts the
  target program and leaves with \<open>_exit\<close>; the parent reaps the child with \<open>waitpid\<close> and
  reports how it ended. The function is one piece of code that three processes execute
  parts of. The model follows one process at a time through the function body: every
  system or library call takes its result from a record of answers (\<open>os\<close>), and the value
  \<open>fork\<close> returns decides which process is being followed. A run is the list of actions
  performed, each tagged with the process that performed it, and the way the followed
  process leaves the function.
\<close>

subsection \<open>Build configuration\<close>

text \<open>
  The three preprocessor variants of the child's spawn step:
  \<open>BUILDFLAG(IS_ANDROID) && __ANDROID_API__ < 28\<close>, \<open>BUILDFLAG(IS_APPLE)\<close>, and the rest.
\<close>

datatype platform = AndroidLegacy | Apple | OtherPosix

text \<open>
  What the build fixes: the platform, whether \<open>DCHECK\<close>s are compiled in, the status
  macros of \<open><sys/wait.h>\<close> and \<open>strsignal\<close>. The macros are not part of the source file,
  so the model takes them as parameters.
\<close>

record build =
  platform :: platform
  dcheck_is_on :: bool
  WIFSIGNALED :: "int \<Rightarrow> bool"
  WTERMSIG :: "int \<Rightarrow> int"
  WCOREDUMP :: "int \<Rightarrow> bool"
  WIFEXITED :: "int \<Rightarrow> bool"
  WEXITSTATUS :: "int \<Rightarrow> int"
  strsignal :: "int \<Rightarrow> string"

definition EXIT_SUCCESS :: int where
  "EXIT_SUCCESS = 0"

definition STDERR_FILENO :: int where
  "STDERR_FILENO = 2"

definition EINTR :: int where
  "EINTR = 4"

definition POSIX_SPAWN_CLOEXEC_DEFAULT :: int where
  "POSIX_SPAWN_CLOEXEC_DEFAULT = 0x4000"

subsection \<open>Processes, actions and outcomes\<close>

text \<open>
  The source's comments call the three processes parent, child and grandchild; the
  specification calls them Caller, Intermediate and Detached.
\<close>

datatype role = Parent | Child | Grandchild

datatype severity = WARNING | ERROR | FATAL

text \<open>
  Log records keep the stream's arguments instead of the formatted text.
  \<open>PLOG\<close> appends the description of \<open>errno\<close> to its text; \<open>PCHECK\<close> and \<open>DCHECK\<close> name the
  failed check.
\<close>

datatype message =
    Terminated_by_signal int string bool
  | Unknown_termination int
  | Exited_with_code int

datatype log_record =
    PLOG severity string
  | PLOG_path severity string "string option"
  | LOG severity message
  | PCHECK_failed string
  | DCHECK_failed string

text \<open>
  A pointer to character data is \<open>Some s\<close>, \<open>nullptr\<close> is \<open>None\<close>; a \<open>char*\<close> vector is a list
  of such pointers.
\<close>

type_synonym c_vector = "string option list"

text \<open>
  The descriptor table of a process: the descriptors that are open, and those of them
  that are marked close-on-exec (\<open>FD_CLOEXEC\<close>).
\<close>

record fd_table =
  opened :: "nat set"
  close_on_exec :: "nat set"

text \<open>
  One call of \<open>posix_spawn\<close>, \<open>posix_spawnp\<close>, \<open>execve\<close> or \<open>execvpe\<close>: its arguments, and the
  descriptor table of the calling process at the time of the call. \<open>file_actions\<close> is the
  list of descriptors added with \<open>posix_spawn_file_actions_addinherit_np\<close>, \<open>attr\<close> the flags
  set with \<open>posix_spawnattr_setflags\<close>; both are \<open>None\<close> for a null pointer and for the exec
  functions, which have no such arguments.
\<close>

record spawn_call =
  searches_path :: bool
  path :: "string option"
  file_actions :: "int list option"
  attr :: "int option"
  argv_for_spawn :: c_vector
  envp_for_spawn :: c_vector
  caller_fds :: fd_table

datatype libc_call =
    Spawnattr_init
  | Spawnattr_setflags int
  | File_actions_init
  | File_actions_addinherit int

datatype action =
    Fork
  | Child_function
  | Setsid
  | Libc libc_call
  | Close_multiple int int
  | Posix_spawn spawn_call
  | Exec spawn_call
  | Waitpid int
  | Log log_record

text \<open>
  How the followed process leaves the function: by \<open>return\<close>, by \<open>_exit\<close>, by \<open>exit\<close> (which
  the source never calls), by the abort of a fatal log message or failed check, by becoming
  the target program when an exec function succeeds, or not at all when the hook does not
  return.
\<close>

datatype outcome =
    Return bool
  | Underscore_exit int
  | Normal_exit int
  | Abort
  | Image_replaced spawn_call
  | Hook_no_return

type_synonym trace = "(role \<times> action) list"

type_synonym run = "trace \<times> outcome"

subsection \<open>Answers of the operating system\<close>

text \<open>One return of \<open>waitpid\<close>: its return value, \<open>errno\<close> and the status it stored.\<close>

record wait_ret =
  ret :: int
  err :: int
  stat :: int

text \<open>
  The answers the followed process gets: the return values of both forks, whether the
  hook returns, the return value of \<open>setsid\<close>, the error numbers of the spawn attribute
  and file action calls and of \<open>posix_spawn\<close>, whether the exec function fails, the
  successive returns of \<open>waitpid\<close>, the ambient \<open>environ\<close> and the descriptor table of the
  process when \<open>SpawnSubprocess\<close> is called (and so of its child, which inherits it).
\<close>

record os =
  fork_ret :: int
  child_function_returns :: bool
  setsid_ret :: int
  fork2_ret :: int
  libc_err :: "libc_call \<Rightarrow> int"
  spawn_err :: int
  exec_fails :: bool
  waitpid_ret :: "nat \<Rightarrow> wait_ret"
  environ :: c_vector
  descriptor_table :: fd_table

subsection \<open>Helpers of the model\<close>

text \<open>Putting the actions already performed in front of the rest of a run.\<close>

definition after :: "trace \<Rightarrow> run \<Rightarrow> run" where
  "after t r = (t @ fst r, snd r)"

text \<open>
  What a pointer obtained with \<open>c_str()\<close> points to: a reader of C strings stops at the
  first NUL byte, so it sees the characters of the string before that byte.
\<close>

definition c_str :: "string \<Rightarrow> string" where
  "c_str x = takeWhile (\<lambda>c. c \<noteq> CHR 0x00) x"

text \<open>
  The \<open>nullptr\<close>-terminated vector of \<open>c_str()\<close> pointers that the source builds from a
  vector of strings (lines 110-115 and 119-123).
\<close>

definition c_strs :: "string list \<Rightarrow> c_vector" where
  "c_strs v = map (\<lambda>x. Some (c_str x)) v @ [None]"

text \<open>
  \<open>PCHECK\<close> of a library call that returns an error number (lines 47, 60, 73 and 86): the
  call is made; when it fails the check logs and aborts, otherwise the run goes on.
\<close>

definition pcheck_libc :: "os \<Rightarrow> libc_call \<Rightarrow> string \<Rightarrow> run \<Rightarrow> run" where
  "pcheck_libc s c name rest =
     (if libc_err s c = 0 then after [(Child, Libc c)] rest
      else ([(Child, Libc c), (Child, Log (PCHECK_failed name))], Abort))"

subsection \<open>The termination report (lines 261-274)\<close>

definition report_termination :: "build \<Rightarrow> int \<Rightarrow> log_record list" where
  "report_termination b status =
     (if WIFSIGNALED b status then
        (let sig = WTERMSIG b status
         in [LOG WARNING (Terminated_by_signal sig (strsignal b sig) (WCOREDUMP b status))])
      else if \<not> WIFEXITED b status then [LOG WARNING (Unknown_termination status)]
      else if WEXITSTATUS b status \<noteq> EXIT_SUCCESS
        then [LOG WARNING (Exited_with_code (WEXITSTATUS b status))]
      else [])"

subsection \<open>Waiting for the child (lines 253-259)\<close>

text \<open>
  Modelled from the spec: the macro \<open>HANDLE_EINTR\<close> of base/posix/eintr\_wrapper.h is not
  among the sources. It evaluates the call again for as long as the call returns \<open>-1\<close>
  with \<open>errno = EINTR\<close> (the spec's interrupted-call retries). The loop has no bound, so it
  is a partial function: \<open>None\<close> is the loop that never ends. The result is the number of
  the call that ended the loop, counted from \<open>i\<close>, and what that call returned.
\<close>

partial_function (option) HANDLE_EINTR_waitpid ::
  "(nat \<Rightarrow> wait_ret) \<Rightarrow> nat \<Rightarrow> (nat \<times> wait_ret) option" where
  "HANDLE_EINTR_waitpid w i =
     (if ret (w i) = - 1 \<and> err (w i) = EINTR then HANDLE_EINTR_waitpid w (Suc i)
      else Some (i, w i))"

declare HANDLE_EINTR_waitpid.simps [code]

definition parent_process :: "build \<Rightarrow> os \<Rightarrow> int \<Rightarrow> run option" where
  "parent_process b s pid =
     (case HANDLE_EINTR_waitpid (waitpid_ret s) 0 of
        None \<Rightarrow> None
      | Some (n, w) \<Rightarrow>
          (let waits = replicate (Suc n) (Parent, Waitpid pid);
               wait_pid = ret w;
               status = stat w
           in if wait_pid = - 1
              then Some (waits @ [(Parent, Log (PLOG WARNING ''waitpid''))], Return True)
              else if dcheck_is_on b \<and> wait_pid \<noteq> pid
              then Some (waits @ [(Parent, Log (DCHECK_failed ''wait_pid == pid''))], Abort)
              else Some (waits @ map (\<lambda>l. (Parent, Log l)) (report_termination b status),
                         Return True)))"

subsection \<open>Descriptors and the new program image\<close>

text \<open>
  Modelled from the spec: \<open>CloseMultipleNowOrOnExec\<close> of util/posix/close\_multiple.cc is
  not among the sources. The spec describes it as the operation that closes all file
  descriptors from a lower bound on except a preserved one. The model closes them;
  marking them close-on-exec instead gives the new program the same descriptors. The
  descriptors below the bound and the preserved one are left as they are, with their
  close-on-exec marks.
\<close>

definition CloseMultipleNowOrOnExec :: "int \<Rightarrow> int \<Rightarrow> fd_table \<Rightarrow> fd_table" where
  "CloseMultipleNowOrOnExec fd preserve_fd t =
     t\<lparr>opened := {d \<in> opened t. \<not> (fd \<le> int d \<and> int d \<noteq> preserve_fd)}\<rparr>"

text \<open>What a reader of a \<open>nullptr\<close>-terminated vector finds in it.\<close>

fun c_vector_contents :: "c_vector \<Rightarrow> string list" where
  "c_vector_contents [] = []"
| "c_vector_contents (None # v) = []"
| "c_vector_contents (Some x # v) = x # c_vector_contents v"

text \<open>
  Modelled from the spec: which descriptors the operating system carries over into the
  program that a spawn or exec call starts. An open descriptor that the file actions
  list as inherited is carried over, whatever its mark (the spec's descriptors declared
  as explicitly inherited). An open descriptor that is not listed is carried over when it
  is not marked close-on-exec, unless the attribute flag \<open>POSIX_SPAWN_CLOEXEC_DEFAULT\<close>
  treats every descriptor as marked (the spec's close-on-exec by default for unlisted
  descriptors). Null file actions list nothing and null attributes set no flag.
\<close>

definition listed_fds :: "spawn_call \<Rightarrow> int list" where
  "listed_fds c = (case file_actions c of None \<Rightarrow> [] | Some fa \<Rightarrow> fa)"

definition cloexec_default :: "spawn_call \<Rightarrow> bool" where
  "cloexec_default c =
     (case attr c of None \<Rightarrow> False | Some flags \<Rightarrow> flags AND POSIX_SPAWN_CLOEXEC_DEFAULT \<noteq> 0)"

definition inherited_fds :: "spawn_call \<Rightarrow> nat set" where
  "inherited_fds c =
     {d \<in> opened (caller_fds c).
        int d \<in> set (listed_fds c) \<or>
        (\<not> cloexec_default c \<and> d \<notin> close_on_exec (caller_fds c))}"

record image =
  program :: "string option"
  path_search :: bool
  arguments :: "string list"
  environment :: "string list"
  descriptors :: "nat set"

definition new_image :: "spawn_call \<Rightarrow> image" where
  "new_image c =
     \<lparr>program = path c, path_search = searches_path c,
      arguments = c_vector_contents (argv_for_spawn c),
      environment = c_vector_contents (envp_for_spawn c),
      descriptors = inherited_fds c\<rparr>"

subsection \<open>The spawn step of the child\<close>

text \<open>
  The arguments of a spawn or exec call (lines 197 and 230-236): the program is
  \<open>argv_for_spawn[0]\<close>; \<open>fa\<close> and \<open>at\<close> are the file actions and attributes, \<open>table\<close> the
  descriptor table of the calling process. \<open>argv_c\<close> always ends in \<open>nullptr\<close>, so it has
  an element \<open>0\<close>.
\<close>

definition call_with ::
  "bool \<Rightarrow> c_vector \<Rightarrow> c_vector \<Rightarrow> int list option \<Rightarrow> int option \<Rightarrow> fd_table \<Rightarrow> spawn_call"
  where
  "call_with use_path argv_c envp_c fa at table =
     \<lparr>searches_path = use_path, path = argv_c ! 0, file_actions = fa, attr = at,
      argv_for_spawn = argv_c, envp_for_spawn = envp_c, caller_fds = table\<rparr>"

text \<open>
  Lines 229-242: \<open>posix_spawn\<close> or \<open>posix_spawnp\<close>; a fatal log message when it fails,
  \<open>_exit(EXIT_SUCCESS)\<close> when it succeeds.
\<close>

definition posix_spawn_then_exit :: "os \<Rightarrow> spawn_call \<Rightarrow> run" where
  "posix_spawn_then_exit s c =
     (if spawn_err s \<noteq> 0
      then ([(Child, Posix_spawn c),
             (Child, Log (PLOG_path FATAL
                (if searches_path c then ''posix_spawnp'' else ''posix_spawn'') (path c)))],
            Abort)
      else ([(Child, Posix_spawn c)], Underscore_exit EXIT_SUCCESS))"

text \<open>
  \<open>AddInheritedFileDescriptor\<close> (lines 85-89) for each descriptor of a list in turn; \<open>fa\<close>
  is the list of descriptors the file actions hold so far, \<open>k\<close> the rest of the run.
\<close>

fun AddInheritedFileDescriptors ::
  "os \<Rightarrow> int list \<Rightarrow> int list \<Rightarrow> (int list \<Rightarrow> run) \<Rightarrow> run" where
  "AddInheritedFileDescriptors s [] fa k = k fa"
| "AddInheritedFileDescriptors s (fd # fds) fa k =
     pcheck_libc s (File_actions_addinherit fd) ''posix_spawn_file_actions_addinherit_np''
       (AddInheritedFileDescriptors s fds (fa @ [fd]) k)"

text \<open>
  Lines 203-215 and 229-242, \<open>BUILDFLAG(IS_APPLE)\<close>: the attribute object with
  \<open>POSIX_SPAWN_CLOEXEC_DEFAULT\<close>, the file actions that inherit the descriptors \<open>0\<close> to
  \<open>STDERR_FILENO\<close> and then \<open>preserve_fd\<close>, and the spawn.
\<close>

definition spawn_apple :: "os \<Rightarrow> c_vector \<Rightarrow> c_vector \<Rightarrow> int \<Rightarrow> bool \<Rightarrow> run" where
  "spawn_apple s argv_c envp_c preserve_fd use_path =
     pcheck_libc s Spawnattr_init ''posix_spawnattr_init''
       (pcheck_libc s (Spawnattr_setflags POSIX_SPAWN_CLOEXEC_DEFAULT)
          ''posix_spawnattr_setflags''
          (pcheck_libc s File_actions_init ''posix_spawn_file_actions_init''
             (AddInheritedFileDescriptors s ([0..STDERR_FILENO] @ [preserve_fd]) []
                (\<lambda>fa. posix_spawn_then_exit s
                   (call_with use_path argv_c envp_c (Some fa)
                      (Some POSIX_SPAWN_CLOEXEC_DEFAULT) (descriptor_table s))))))"

text \<open>
  Lines 218-221 and 229-242, the other platforms: close the descriptors above
  \<open>STDERR_FILENO\<close> except \<open>preserve_fd\<close>, then spawn with null attributes and file actions.
\<close>

definition spawn_other :: "os \<Rightarrow> c_vector \<Rightarrow> c_vector \<Rightarrow> int \<Rightarrow> bool \<Rightarrow> run" where
  "spawn_other s argv_c envp_c preserve_fd use_path =
     after [(Child, Close_multiple (STDERR_FILENO + 1) preserve_fd)]
       (posix_spawn_then_exit s
          (call_with use_path argv_c envp_c None None
             (CloseMultipleNowOrOnExec (STDERR_FILENO + 1) preserve_fd (descriptor_table s))))"

text \<open>
  Lines 180-199, Android before API level 28: a second fork. The process in which it
  returns a positive pid is the child, which leaves with \<open>_exit\<close>; the process in which it
  returns \<open>0\<close> is the grandchild, which closes the descriptors and calls \<open>execve\<close> or
  \<open>execvpe\<close>. The exec functions return only when they fail.
\<close>

definition spawn_android_legacy :: "os \<Rightarrow> c_vector \<Rightarrow> c_vector \<Rightarrow> int \<Rightarrow> bool \<Rightarrow> run" where
  "spawn_android_legacy s argv_c envp_c preserve_fd use_path =
     (let pid = fork2_ret s
      in if pid < 0 then ([(Child, Fork), (Child, Log (PLOG FATAL ''fork''))], Abort)
         else if pid > 0 then ([(Child, Fork)], Underscore_exit EXIT_SUCCESS)
         else
           (let c = call_with use_path argv_c envp_c None None
                      (CloseMultipleNowOrOnExec (STDERR_FILENO + 1) preserve_fd (descriptor_table s));
                t = [(Child, Fork),
                     (Grandchild, Close_multiple (STDERR_FILENO + 1) preserve_fd),
                     (Grandchild, Exec c)]
            in if exec_fails s
               then (t @ [(Grandchild, Log (PLOG_path FATAL
                             (if use_path then ''execvpe'' else ''execve'') (argv_c ! 0)))],
                     Abort)
               else (t, Image_replaced c)))"

subsection \<open>The child (lines 145-244)\<close>

text \<open>
  The hook, when there is one, is called first; the child goes on only when it returns.
  Then \<open>setsid\<close>, whose failure is fatal, the choice of the environment vector (lines
  176-177) and the spawn step of the platform.
\<close>

definition child_process ::
  "build \<Rightarrow> os \<Rightarrow> c_vector \<Rightarrow> string list option \<Rightarrow> c_vector \<Rightarrow> int \<Rightarrow> bool \<Rightarrow> bool \<Rightarrow> run"
  where
  "child_process b s argv_c envp envp_c preserve_fd use_path child_function =
     (if child_function \<and> \<not> child_function_returns s
      then ([(Child, Child_function)], Hook_no_return)
      else after (if child_function then [(Child, Child_function)] else [])
        (if setsid_ret s = - 1
         then ([(Child, Setsid), (Child, Log (PCHECK_failed ''setsid() != -1''))], Abort)
         else after [(Child, Setsid)]
           (let argv_for_spawn = argv_c;
                envp_for_spawn = (case envp of Some e \<Rightarrow> envp_c | None \<Rightarrow> environ s)
            in case platform b of
                 AndroidLegacy \<Rightarrow>
                   spawn_android_legacy s argv_for_spawn envp_for_spawn preserve_fd use_path
               | Apple \<Rightarrow> spawn_apple s argv_for_spawn envp_for_spawn preserve_fd use_path
               | OtherPosix \<Rightarrow>
                   spawn_other s argv_for_spawn envp_for_spawn preserve_fd use_path)))"

subsection \<open>SpawnSubprocess (lines 101-277)\<close>

text \<open>
  \<open>child_function\<close> says whether the hook pointer is non-null. The result is \<open>None\<close> when
  the parent's wait is interrupted for ever.
\<close>

definition SpawnSubprocess ::
  "build \<Rightarrow> os \<Rightarrow> string list \<Rightarrow> string list option \<Rightarrow> int \<Rightarrow> bool \<Rightarrow> bool \<Rightarrow> run option"
  where
  "SpawnSubprocess b s argv envp preserve_fd use_path child_function =
     (let argv_c = c_strs argv;
          envp_c = (case envp of Some e \<Rightarrow> c_strs e | None \<Rightarrow> []);
          pid = fork_ret s
      in if pid < 0
         then Some ([(Parent, Fork), (Parent, Log (PLOG ERROR ''fork''))], Return False)
         else if pid = 0
         then Some (after [(Parent, Fork)]
                 (child_process b s argv_c envp envp_c preserve_fd use_path child_function))
         else map_option (after [(Parent, Fork)]) (parent_process b s pid))"

subsection \<open>Reading runs\<close>

text \<open>One return of \<open>waitpid\<close> that \<open>HANDLE_EINTR\<close> answers with another call.\<close>

definition interrupted :: "wait_ret \<Rightarrow> bool" where
  "interrupted r = (ret r = - 1 \<and> err r = EINTR)"

text \<open>The log records of a trace, and its \<open>waitpid\<close> calls with the process that made them.\<close>

fun logs :: "trace \<Rightarrow> log_record list" where
  "logs [] = []"
| "logs ((r, Log l) # t) = l # logs t"
| "logs (x # t) = logs t"

fun waits :: "trace \<Rightarrow> (role \<times> int) list" where
  "waits [] = []"
| "waits ((r, Waitpid p) # t) = (r, p) # waits t"
| "waits (x # t) = waits t"

text \<open>
  Kinds of actions: the call of the hook; \<open>setsid\<close>; and the steps of the spawn strategy,
  which are every \<open>fork\<close> but the parent's, the spawn attribute and file action calls,
  the closing of descriptors, and the spawn and exec calls.
\<close>

fun hook_action :: "role \<times> action \<Rightarrow> bool" where
  "hook_action (r, Child_function) = True"
| "hook_action x = False"

fun setsid_action :: "role \<times> action \<Rightarrow> bool" where
  "setsid_action (r, Setsid) = True"
| "setsid_action x = False"

fun spawn_step :: "role \<times> action \<Rightarrow> bool" where
  "spawn_step (Parent, Fork) = False"
| "spawn_step (r, Fork) = True"
| "spawn_step (r, Libc l) = True"
| "spawn_step (r, Close_multiple fd preserve_fd) = True"
| "spawn_step (r, Posix_spawn c) = True"
| "spawn_step (r, Exec c) = True"
| "spawn_step x = False"

text \<open>
  \<open>none_from Q P t\<close>: from the first \<open>Q\<close> action of \<open>t\<close> on, that action included, there is
  no \<open>P\<close> action; every \<open>P\<close> action of \<open>t\<close> comes before every \<open>Q\<close> action.
\<close>

definition none_from :: "('a \<Rightarrow> bool) \<Rightarrow> ('a \<Rightarrow> bool) \<Rightarrow> 'a list \<Rightarrow> bool" where
  "none_from Q P t = (\<not> list_ex P (dropWhile (\<lambda>x. \<not> Q x) t))"

text \<open>
  The actions by which the child prepares its spawn call: the spawn attribute and file
  action calls, and the closing of descriptors.
\<close>

fun preparation :: "role \<times> action \<Rightarrow> bool" where
  "preparation (Child, Libc l) = True"
| "preparation (Child, Close_multiple fd preserve_fd) = True"
| "preparation x = False"

text \<open>The spawn and exec calls of a trace, with the process that made them.\<close>

fun calls :: "trace \<Rightarrow> (role \<times> spawn_call) list" where
  "calls [] = []"
| "calls ((r, Posix_spawn c) # t) = (r, c) # calls t"
| "calls ((r, Exec c) # t) = (r, c) # calls t"
| "calls (x # t) = calls t"

text \<open>
  The answers under which the followed process gets as far as its spawn or exec call: it
  is the child, the hook returns, \<open>setsid\<close> succeeds, and then, on the Apple build, the
  spawn attribute and file action calls succeed; on Android before API level 28, the
  process is the grandchild.
\<close>

definition apple_preparations :: "int \<Rightarrow> libc_call list" where
  "apple_preparations preserve_fd =
     [Spawnattr_init, Spawnattr_setflags POSIX_SPAWN_CLOEXEC_DEFAULT, File_actions_init,
      File_actions_addinherit 0, File_actions_addinherit 1, File_actions_addinherit 2,
      File_actions_addinherit preserve_fd]"

definition reaches_call :: "build \<Rightarrow> os \<Rightarrow> int \<Rightarrow> bool \<Rightarrow> bool" where
  "reaches_call b s preserve_fd child_function =
     (fork_ret s = 0 \<and> (child_function \<longrightarrow> child_function_returns s) \<and> setsid_ret s \<noteq> - 1 \<and>
      (case platform b of
         AndroidLegacy \<Rightarrow> fork2_ret s = 0
       | Apple \<Rightarrow> list_all (\<lambda>c. libc_err s c = 0) (apple_preparations preserve_fd)
       | OtherPosix \<Rightarrow> True))"

text \<open>
  What POSIX says of the status that \<open>waitpid\<close> stores for a process that has ended: a
  process that aborted was terminated by a signal; a process that left with an exit code
  exited, and \<open>WEXITSTATUS\<close> is the low eight bits of the code. The other outcomes are
  not ends of a process, and no status describes them.
\<close>

definition status_describes :: "build \<Rightarrow> outcome \<Rightarrow> int \<Rightarrow> bool" where
  "status_describes b out st =
     (case out of
        Abort \<Rightarrow> WIFSIGNALED b st
      | Underscore_exit c \<Rightarrow>
          \<not> WIFSIGNALED b st \<and> WIFEXITED b st \<and> WEXITSTATUS b st = c mod 256
      | Normal_exit c \<Rightarrow>
          \<not> WIFSIGNALED b st \<and> WIFEXITED b st \<and> WEXITSTATUS b st = c mod 256
      | Return x \<Rightarrow> False
      | Image_replaced c \<Rightarrow> False
      | Hook_no_return \<Rightarrow> False)"

subsection \<open>Concrete inputs\<close>

text \<open>
  A build with the status macros as Linux, Android and macOS define them: the low seven
  bits are the terminating signal (\<open>0\<close> for an exit, \<open>0x7f\<close> for a stopped process), bit
  \<open>0x80\<close> is the core dump flag, the next eight bits are the exit code.
\<close>

definition unix_build :: "platform \<Rightarrow> bool \<Rightarrow> build" where
  "unix_build p d =
     \<lparr>platform = p, dcheck_is_on = d,
      WIFSIGNALED = (\<lambda>s. s AND 0x7f \<noteq> 0 \<and> s AND 0x7f \<noteq> 0x7f),
      WTERMSIG = (\<lambda>s. s AND 0x7f),
      WCOREDUMP = (\<lambda>s. s AND 0x80 \<noteq> 0),
      WIFEXITED = (\<lambda>s. s AND 0x7f = 0),
      WEXITSTATUS = (\<lambda>s. drop_bit 8 (s AND 0xff00)),
      strsignal = (\<lambda>sig. if sig = 6 then ''Aborted'' else ''Unknown signal'')\<rparr>"

text \<open>
  Answers under which every call succeeds: the followed process is the child and then
  the grandchild, the descriptors \<open>0\<close>, \<open>1\<close>, \<open>2\<close>, \<open>5\<close> and \<open>7\<close> are open and none is marked
  close-on-exec, and \<open>waitpid\<close> is interrupted twice before it reports that process \<open>77\<close>
  exited with code \<open>0\<close>.
\<close>

definition calm_os :: os where
  "calm_os =
     \<lparr>fork_ret = 0, child_function_returns = True, setsid_ret = 77, fork2_ret = 0,
      libc_err = (\<lambda>c. 0), spawn_err = 0, exec_fails = False,
      waitpid_ret = (\<lambda>i. if i < 2 then \<lparr>ret = - 1, err = 4, stat = 0\<rparr>
                          else \<lparr>ret = 77, err = 0, stat = 0\<rparr>),
      environ = [Some ''HOME=/'', None],
      descriptor_table = \<lparr>opened = {0, 1, 2, 5, 7}, close_on_exec = {}\<rparr>\<rparr>"

section \<open>Properties\<close>

subsection \<open>Facts about the model\<close>

lemma snd_after: "snd (after t r) = snd r"
  by (simp add: after_def)

lemma fst_after: "fst (after t r) = t @ fst r"
  by (simp add: after_def)

lemma HANDLE_EINTR_waitpid_returns:
  "\<not> interrupted (w (i + n)) \<Longrightarrow> (\<And>j. j < n \<Longrightarrow> interrupted (w (i + j))) \<Longrightarrow>
   HANDLE_EINTR_waitpid w i = Some (i + n, w (i + n))"
proof (induction n arbitrary: i)
  case 0
  then show ?case
    by (subst HANDLE_EINTR_waitpid.simps) (auto simp add: interrupted_def)
next
  case (Suc n)
  have first: "interrupted (w i)"
    using Suc.prems(2) [of 0] by simp
  have "HANDLE_EINTR_waitpid w (Suc i) = Some (Suc i + n, w (Suc i + n))"
  proof (rule Suc.IH)
    show "\<not> interrupted (w (Suc i + n))"
      using Suc.prems(1) by simp
    show "interrupted (w (Suc i + j))" if "j < n" for j
      using Suc.prems(2) [of "Suc j"] that by simp
  qed
  with first show ?case
    by (subst HANDLE_EINTR_waitpid.simps) (auto simp add: interrupted_def)
qed

lemma HANDLE_EINTR_waitpid_result_aux:
  assumes "HANDLE_EINTR_waitpid w i = Some y"
  shows "snd y = w (fst y) \<and> \<not> interrupted (snd y) \<and> i \<le> fst y \<and>
         (\<forall>j. i \<le> j \<and> j < fst y \<longrightarrow> interrupted (w j))"
proof (rule HANDLE_EINTR_waitpid.raw_induct
    [where P = "\<lambda>w i y. snd y = w (fst y) \<and> \<not> interrupted (snd y) \<and> i \<le> fst y \<and>
         (\<forall>j. i \<le> j \<and> j < fst y \<longrightarrow> interrupted (w j))", OF _ assms])
  fix f :: "(nat \<Rightarrow> wait_ret) \<Rightarrow> nat \<Rightarrow> (nat \<times> wait_ret) option" and w i y
  assume IH: "\<And>w i y. f w i = Some y \<Longrightarrow>
      snd y = w (fst y) \<and> \<not> interrupted (snd y) \<and> i \<le> fst y \<and>
      (\<forall>j. i \<le> j \<and> j < fst y \<longrightarrow> interrupted (w j))"
    and eq: "(if ret (w i) = - 1 \<and> err (w i) = EINTR then f w (Suc i) else Some (i, w i))
             = Some y"
  show "snd y = w (fst y) \<and> \<not> interrupted (snd y) \<and> i \<le> fst y \<and>
        (\<forall>j. i \<le> j \<and> j < fst y \<longrightarrow> interrupted (w j))"
  proof (cases "interrupted (w i)")
    case True
    with eq have "f w (Suc i) = Some y"
      by (simp add: interrupted_def)
    from IH [OF this] have a: "snd y = w (fst y)" "\<not> interrupted (snd y)" "Suc i \<le> fst y"
      and b: "\<And>j. Suc i \<le> j \<Longrightarrow> j < fst y \<Longrightarrow> interrupted (w j)"
      by auto
    have "interrupted (w j)" if "i \<le> j" "j < fst y" for j
    proof (cases "j = i")
      case True
      with \<open>interrupted (w i)\<close> show ?thesis by simp
    next
      case False
      with that have "Suc i \<le> j" by simp
      from b [OF this that(2)] show ?thesis .
    qed
    with a show ?thesis by simp
  next
    case False
    with eq show ?thesis
      by (auto simp: interrupted_def)
  qed
qed

lemma HANDLE_EINTR_waitpid_result:
  "HANDLE_EINTR_waitpid w i = Some (k, r) \<Longrightarrow>
   r = w k \<and> \<not> interrupted r \<and> i \<le> k \<and> (\<forall>j. i \<le> j \<and> j < k \<longrightarrow> interrupted (w j))"
  using HANDLE_EINTR_waitpid_result_aux [of w i "(k, r)"] by auto

lemma after_after: "after t (after t' r) = after (t @ t') r"
  by (simp add: after_def)

lemma after_Nil: "after [] r = r"
  by (simp add: after_def)

lemma upto_STDERR_FILENO: "[0..STDERR_FILENO] = [0, 1, 2]"
  by (simp add: STDERR_FILENO_def upto_rec1)

lemma pcheck_libc_run:
  assumes "\<exists>pre. (\<forall>x\<in>set pre. \<exists>l. x = (Child, Libc l)) \<and>
             (rest = after pre r \<or> (\<exists>name. rest = (pre @ [(Child, Log (PCHECK_failed name))], Abort)))"
  shows "\<exists>pre. (\<forall>x\<in>set pre. \<exists>l. x = (Child, Libc l)) \<and>
           (pcheck_libc s c n rest = after pre r \<or>
            (\<exists>name. pcheck_libc s c n rest = (pre @ [(Child, Log (PCHECK_failed name))], Abort)))"
proof -
  from assms obtain pre where pre: "\<forall>x\<in>set pre. \<exists>l. x = (Child, Libc l)"
    and rest: "rest = after pre r \<or> (\<exists>name. rest = (pre @ [(Child, Log (PCHECK_failed name))], Abort))"
    by blast
  show ?thesis
  proof (cases "libc_err s c = 0")
    case True
    have "\<forall>x\<in>set ((Child, Libc c) # pre). \<exists>l. x = (Child, Libc l)"
      using pre by simp
    moreover have "pcheck_libc s c n rest = after ((Child, Libc c) # pre) r \<or>
        (\<exists>name. pcheck_libc s c n rest =
           (((Child, Libc c) # pre) @ [(Child, Log (PCHECK_failed name))], Abort))"
      using rest True by (auto simp: pcheck_libc_def after_def)
    ultimately show ?thesis by blast
  next
    case False
    have "\<forall>x\<in>set [(Child, Libc c)]. \<exists>l. x = (Child, Libc l)"
      by simp
    moreover have "pcheck_libc s c n rest = ([(Child, Libc c)] @ [(Child, Log (PCHECK_failed n))], Abort)"
      using False by (simp add: pcheck_libc_def)
    ultimately show ?thesis by blast
  qed
qed

lemma AddInheritedFileDescriptors_run:
  "\<exists>pre. (\<forall>x\<in>set pre. \<exists>l. x = (Child, Libc l)) \<and>
     (AddInheritedFileDescriptors s fds fa k = after pre (k (fa @ fds)) \<or>
      (\<exists>name. AddInheritedFileDescriptors s fds fa k =
         (pre @ [(Child, Log (PCHECK_failed name))], Abort)))"
proof (induction fds arbitrary: fa)
  case Nil
  have "\<forall>x\<in>set []. \<exists>l. x = (Child, Libc l)"
    by simp
  moreover have "AddInheritedFileDescriptors s [] fa k = after [] (k (fa @ []))"
    by (simp add: after_def)
  ultimately show ?case by blast
next
  case (Cons fd fds)
  from Cons.IH [of "fa @ [fd]"] show ?case
    by (simp del: ex_simps) (rule pcheck_libc_run, simp)
qed

lemma spawn_apple_run:
  "\<exists>pre. (\<forall>x\<in>set pre. \<exists>l. x = (Child, Libc l)) \<and>
     (spawn_apple s argv_c envp_c preserve_fd use_path =
        after pre (posix_spawn_then_exit s
          (call_with use_path argv_c envp_c (Some [0, 1, 2, preserve_fd])
             (Some POSIX_SPAWN_CLOEXEC_DEFAULT) (descriptor_table s))) \<or>
      (\<exists>name. spawn_apple s argv_c envp_c preserve_fd use_path =
         (pre @ [(Child, Log (PCHECK_failed name))], Abort)))"
proof -
  let ?k = "\<lambda>fa. posix_spawn_then_exit s
          (call_with use_path argv_c envp_c (Some fa)
             (Some POSIX_SPAWN_CLOEXEC_DEFAULT) (descriptor_table s))"
  have "\<exists>pre. (\<forall>x\<in>set pre. \<exists>l. x = (Child, Libc l)) \<and>
     (AddInheritedFileDescriptors s [0, 1, 2, preserve_fd] [] ?k =
        after pre (?k ([] @ [0, 1, 2, preserve_fd])) \<or>
      (\<exists>name. AddInheritedFileDescriptors s [0, 1, 2, preserve_fd] [] ?k =
         (pre @ [(Child, Log (PCHECK_failed name))], Abort)))"
    by (rule AddInheritedFileDescriptors_run)
  then have "\<exists>pre. (\<forall>x\<in>set pre. \<exists>l. x = (Child, Libc l)) \<and>
     (AddInheritedFileDescriptors s [0, 1, 2, preserve_fd] [] ?k =
        after pre (?k [0, 1, 2, preserve_fd]) \<or>
      (\<exists>name. AddInheritedFileDescriptors s [0, 1, 2, preserve_fd] [] ?k =
         (pre @ [(Child, Log (PCHECK_failed name))], Abort)))"
    by (simp only: append_Nil)
  then show ?thesis
    unfolding spawn_apple_def upto_STDERR_FILENO append.simps
    by (intro pcheck_libc_run)
qed

lemma child_process_cases [consumes 1, case_names hook_no_return setsid_fails fork2_fails
    fork2_child exec_fails exec_done pcheck_fails spawn_fails spawn_done]:
  fixes b s argv_c envp envp_c preserve_fd use_path child_function hook env closed c_exec c_spawn
  defines "hook \<equiv> if child_function then [(Child, Child_function)] else []"
    and "env \<equiv> case envp of Some e \<Rightarrow> envp_c | None \<Rightarrow> environ s"
    and "closed \<equiv> CloseMultipleNowOrOnExec (STDERR_FILENO + 1) preserve_fd (descriptor_table s)"
    and "c_exec \<equiv> call_with use_path argv_c env None None closed"
    and "c_spawn \<equiv>
      if platform b = Apple
      then call_with use_path argv_c env (Some [0, 1, 2, preserve_fd])
             (Some POSIX_SPAWN_CLOEXEC_DEFAULT) (descriptor_table s)
      else call_with use_path argv_c env None None closed"
  assumes run: "child_process b s argv_c envp envp_c preserve_fd use_path child_function = (t, out)"
  obtains
    "child_function" "\<not> child_function_returns s"
      "t = [(Child, Child_function)]" "out = Hook_no_return"
  | "child_function \<longrightarrow> child_function_returns s" "setsid_ret s = - 1"
      "t = hook @ [(Child, Setsid), (Child, Log (PCHECK_failed ''setsid() != -1''))]"
      "out = Abort"
  | "child_function \<longrightarrow> child_function_returns s" "setsid_ret s \<noteq> - 1"
      "platform b = AndroidLegacy" "fork2_ret s < 0"
      "t = hook @ [(Child, Setsid), (Child, Fork), (Child, Log (PLOG FATAL ''fork''))]"
      "out = Abort"
  | "child_function \<longrightarrow> child_function_returns s" "setsid_ret s \<noteq> - 1"
      "platform b = AndroidLegacy" "0 < fork2_ret s"
      "t = hook @ [(Child, Setsid), (Child, Fork)]"
      "out = Underscore_exit EXIT_SUCCESS"
  | "child_function \<longrightarrow> child_function_returns s" "setsid_ret s \<noteq> - 1"
      "platform b = AndroidLegacy" "fork2_ret s = 0" "exec_fails s"
      "t = hook @ [(Child, Setsid), (Child, Fork),
                   (Grandchild, Close_multiple (STDERR_FILENO + 1) preserve_fd),
                   (Grandchild, Exec c_exec),
                   (Grandchild, Log (PLOG_path FATAL
                      (if use_path then ''execvpe'' else ''execve'') (argv_c ! 0)))]"
      "out = Abort"
  | "child_function \<longrightarrow> child_function_returns s" "setsid_ret s \<noteq> - 1"
      "platform b = AndroidLegacy" "fork2_ret s = 0" "\<not> exec_fails s"
      "t = hook @ [(Child, Setsid), (Child, Fork),
                   (Grandchild, Close_multiple (STDERR_FILENO + 1) preserve_fd),
                   (Grandchild, Exec c_exec)]"
      "out = Image_replaced c_exec"
  | pre name where
      "child_function \<longrightarrow> child_function_returns s" "setsid_ret s \<noteq> - 1"
      "platform b = Apple" "\<forall>x\<in>set pre. preparation x"
      "t = hook @ (Child, Setsid) # pre @ [(Child, Log (PCHECK_failed name))]"
      "out = Abort"
  | pre where
      "child_function \<longrightarrow> child_function_returns s" "setsid_ret s \<noteq> - 1"
      "platform b \<noteq> AndroidLegacy" "\<forall>x\<in>set pre. preparation x" "spawn_err s \<noteq> 0"
      "t = hook @ (Child, Setsid) # pre @
             [(Child, Posix_spawn c_spawn),
              (Child, Log (PLOG_path FATAL
                 (if use_path then ''posix_spawnp'' else ''posix_spawn'') (argv_c ! 0)))]"
      "out = Abort"
  | pre where
      "child_function \<longrightarrow> child_function_returns s" "setsid_ret s \<noteq> - 1"
      "platform b \<noteq> AndroidLegacy" "\<forall>x\<in>set pre. preparation x" "spawn_err s = 0"
      "t = hook @ (Child, Setsid) # pre @ [(Child, Posix_spawn c_spawn)]"
      "out = Underscore_exit EXIT_SUCCESS"
proof (cases "child_function \<and> \<not> child_function_returns s")
  case True
  with run that(1) show ?thesis
    by (simp add: child_process_def)
next
  case hook_done: False
  show ?thesis
  proof (cases "setsid_ret s = - 1")
    case True
    with run hook_done that(2) show ?thesis
      by (auto simp add: child_process_def after_def hook_def)
  next
    case setsid_done: False
    show ?thesis
    proof (cases "platform b")
      case AndroidLegacy
      with run hook_done setsid_done have
        "after (hook @ [(Child, Setsid)])
           (spawn_android_legacy s argv_c env preserve_fd use_path) = (t, out)"
        by (auto simp add: child_process_def after_def hook_def env_def)
      with AndroidLegacy hook_done setsid_done that(3-6) show ?thesis
        by (auto simp add: spawn_android_legacy_def after_def c_exec_def closed_def Let_def
            split: if_splits)
    next
      case Apple
      with run hook_done setsid_done have r:
        "after (hook @ [(Child, Setsid)])
           (spawn_apple s argv_c env preserve_fd use_path) = (t, out)"
        by (auto simp add: child_process_def after_def hook_def env_def)
      obtain pre where pre: "\<forall>x\<in>set pre. \<exists>l. x = (Child, Libc l)"
        and alt: "spawn_apple s argv_c env preserve_fd use_path =
            after pre (posix_spawn_then_exit s c_spawn) \<or>
          (\<exists>name. spawn_apple s argv_c env preserve_fd use_path =
            (pre @ [(Child, Log (PCHECK_failed name))], Abort))"
        using spawn_apple_run [of s argv_c env preserve_fd use_path] Apple
        by (auto simp add: c_spawn_def)
      from pre have prep: "\<forall>x\<in>set pre. preparation x"
        by auto
      from alt show ?thesis
      proof
        assume "spawn_apple s argv_c env preserve_fd use_path =
            after pre (posix_spawn_then_exit s c_spawn)"
        with r Apple hook_done setsid_done prep that(8,9) [of pre] show ?thesis
          by (auto simp add: posix_spawn_then_exit_def after_def c_spawn_def call_with_def
              split: if_splits)
      next
        assume "\<exists>name. spawn_apple s argv_c env preserve_fd use_path =
            (pre @ [(Child, Log (PCHECK_failed name))], Abort)"
        with r Apple hook_done setsid_done prep that(7) [of pre] show ?thesis
          by (auto simp add: after_def)
      qed
    next
      case OtherPosix
      with run hook_done setsid_done have r:
        "after (hook @ [(Child, Setsid)])
           (spawn_other s argv_c env preserve_fd use_path) = (t, out)"
        by (auto simp add: child_process_def after_def hook_def env_def)
      have prep: "\<forall>x\<in>set [(Child, Close_multiple (STDERR_FILENO + 1) preserve_fd)]. preparation x"
        by simp
      from r OtherPosix hook_done setsid_done prep
        that(8,9) [of "[(Child, Close_multiple (STDERR_FILENO + 1) preserve_fd)]"]
      show ?thesis
        by (auto simp add: spawn_other_def posix_spawn_then_exit_def after_def c_spawn_def
            closed_def call_with_def split: if_splits)
    qed
  qed
qed

lemma child_process_never_returns:
  "snd (child_process b s argv_c envp envp_c preserve_fd use_path child_function) \<noteq> Return x"
  "snd (child_process b s argv_c envp envp_c preserve_fd use_path child_function) \<noteq> Normal_exit y"
proof -
  obtain t out where
    run: "child_process b s argv_c envp envp_c preserve_fd use_path child_function = (t, out)"
    by (cases "child_process b s argv_c envp envp_c preserve_fd use_path child_function")
  from run have "out \<noteq> Return x \<and> out \<noteq> Normal_exit y"
    by (cases rule: child_process_cases) simp_all
  with run show
    "snd (child_process b s argv_c envp envp_c preserve_fd use_path child_function) \<noteq> Return x"
    "snd (child_process b s argv_c envp envp_c preserve_fd use_path child_function) \<noteq> Normal_exit y"
    by simp_all
qed

lemma map_option_snd_after: "map_option snd (map_option (after t) x) = map_option snd x"
  by (cases x) (simp_all add: snd_after)

lemma parent_process_outcome:
  "parent_process b s pid = Some r \<Longrightarrow> snd r = Return True \<or> snd r = Abort"
  by (auto simp add: parent_process_def Let_def split: option.splits if_splits)

lemma parent_process_returns:
  assumes "\<not> interrupted (waitpid_ret s n)" and "\<forall>j<n. interrupted (waitpid_ret s j)"
  shows "parent_process b s pid =
     (let w = waitpid_ret s n; waits = replicate (Suc n) (Parent, Waitpid pid)
      in if ret w = - 1
         then Some (waits @ [(Parent, Log (PLOG WARNING ''waitpid''))], Return True)
         else if dcheck_is_on b \<and> ret w \<noteq> pid
         then Some (waits @ [(Parent, Log (DCHECK_failed ''wait_pid == pid''))], Abort)
         else Some (waits @ map (\<lambda>l. (Parent, Log l)) (report_termination b (stat w)),
                    Return True))"
proof -
  have "HANDLE_EINTR_waitpid (waitpid_ret s) 0 = Some (0 + n, waitpid_ret s (0 + n))"
    using assms by (intro HANDLE_EINTR_waitpid_returns) simp_all
  then show ?thesis
    by (simp add: parent_process_def Let_def)
qed

subsection \<open>The boolean result\<close>

text \<open>
  C1: the result of \<open>SpawnSubprocess\<close> is \<open>false\<close> exactly when the first \<open>fork\<close> fails.
  Once that \<open>fork\<close> has succeeded the parent returns \<open>true\<close> whatever \<open>waitpid\<close> answers
  (an error, any status): it returns as soon as one \<open>waitpid\<close> call, the \<open>n\<close>-th, is not
  interrupted. With \<open>DCHECK\<close>s compiled in, \<open>waitpid\<close> has to keep its contract and return
  \<open>-1\<close> or the pid it was asked for.
\<close>

theorem C1_false_iff_fork_fails:
  "(map_option snd (SpawnSubprocess b s argv envp preserve_fd use_path child_function)
      = Some (Return False) \<longleftrightarrow> fork_ret s < 0) \<and>
   (0 < fork_ret s \<and> \<not> interrupted (waitpid_ret s n) \<and> (\<forall>j<n. interrupted (waitpid_ret s j)) \<and>
    (dcheck_is_on b \<longrightarrow> ret (waitpid_ret s n) = - 1 \<or> ret (waitpid_ret s n) = fork_ret s)
    \<longrightarrow> map_option snd (SpawnSubprocess b s argv envp preserve_fd use_path child_function)
          = Some (Return True))"
proof (intro conjI iffI impI)
  assume "fork_ret s < 0"
  then show "map_option snd (SpawnSubprocess b s argv envp preserve_fd use_path child_function)
      = Some (Return False)"
    by (simp add: SpawnSubprocess_def)
next
  assume false: "map_option snd (SpawnSubprocess b s argv envp preserve_fd use_path child_function)
      = Some (Return False)"
  show "fork_ret s < 0"
  proof (rule ccontr)
    assume nonneg: "\<not> fork_ret s < 0"
    show False
    proof (cases "fork_ret s = 0")
      case True
      with false child_process_never_returns(1) [of b s "c_strs argv" envp _ preserve_fd use_path
          child_function False]
      show False
        by (simp add: SpawnSubprocess_def Let_def snd_after)
    next
      case False
      with nonneg false obtain r where "parent_process b s (fork_ret s) = Some r"
        and "snd (after [(Parent, Fork)] r) = Return False"
        by (auto simp add: SpawnSubprocess_def Let_def)
      with parent_process_outcome [of b s "fork_ret s" r] show False
        by (auto simp add: snd_after)
    qed
  qed
next
  assume h: "0 < fork_ret s \<and> \<not> interrupted (waitpid_ret s n) \<and>
    (\<forall>j<n. interrupted (waitpid_ret s j)) \<and>
    (dcheck_is_on b \<longrightarrow> ret (waitpid_ret s n) = - 1 \<or> ret (waitpid_ret s n) = fork_ret s)"
  then have "parent_process b s (fork_ret s) \<noteq> None \<and>
      map_option snd (parent_process b s (fork_ret s)) = Some (Return True)"
    by (auto simp add: parent_process_returns [of s n b "fork_ret s"] Let_def)
  with h show "map_option snd (SpawnSubprocess b s argv envp preserve_fd use_path child_function)
      = Some (Return True)"
    by (simp add: SpawnSubprocess_def Let_def map_option_snd_after)
qed

theorem C1_false_iff_fork_fails_witness:
  "0 < fork_ret (calm_os\<lparr>fork_ret := 77\<rparr>) \<and>
   interrupted (waitpid_ret (calm_os\<lparr>fork_ret := 77\<rparr>) 0) \<and>
   interrupted (waitpid_ret (calm_os\<lparr>fork_ret := 77\<rparr>) 1) \<and>
   \<not> interrupted (waitpid_ret (calm_os\<lparr>fork_ret := 77\<rparr>) 2) \<and>
   dcheck_is_on (unix_build OtherPosix True) \<and>
   ret (waitpid_ret (calm_os\<lparr>fork_ret := 77\<rparr>) 2) = fork_ret (calm_os\<lparr>fork_ret := 77\<rparr>) \<and>
   map_option snd (SpawnSubprocess (unix_build OtherPosix True) (calm_os\<lparr>fork_ret := 77\<rparr>)
      [''/bin/true''] None 5 False True) = Some (Return True) \<and>
   map_option snd (SpawnSubprocess (unix_build OtherPosix True) (calm_os\<lparr>fork_ret := - 1\<rparr>)
      [''/bin/true''] None 5 False True) = Some (Return False)"
proof -
  have h: "0 < fork_ret (calm_os\<lparr>fork_ret := 77\<rparr>) \<and>
      \<not> interrupted (waitpid_ret (calm_os\<lparr>fork_ret := 77\<rparr>) 2) \<and>
      (\<forall>j<2. interrupted (waitpid_ret (calm_os\<lparr>fork_ret := 77\<rparr>) j)) \<and>
      (dcheck_is_on (unix_build OtherPosix True) \<longrightarrow>
         ret (waitpid_ret (calm_os\<lparr>fork_ret := 77\<rparr>) 2) = - 1 \<or>
         ret (waitpid_ret (calm_os\<lparr>fork_ret := 77\<rparr>) 2) = fork_ret (calm_os\<lparr>fork_ret := 77\<rparr>))"
    by (simp add: calm_os_def interrupted_def EINTR_def)
  have f: "fork_ret (calm_os\<lparr>fork_ret := - 1\<rparr>) < 0"
    by simp
  from C1_false_iff_fork_fails [of "unix_build OtherPosix True" "calm_os\<lparr>fork_ret := 77\<rparr>"
      "[''/bin/true'']" None 5 False True 2] h
    C1_false_iff_fork_fails [of "unix_build OtherPosix True" "calm_os\<lparr>fork_ret := - 1\<rparr>"
      "[''/bin/true'']" None 5 False True 0] f
  show ?thesis
    by (simp add: calm_os_def interrupted_def EINTR_def unix_build_def)
qed

lemma logs_append: "logs (t @ u) = logs t @ logs u"
  by (induction t rule: logs.induct) simp_all

lemma logs_Log: "logs (map (\<lambda>l. (r, Log l)) ls) = ls"
  by (induction ls) simp_all

lemma logs_replicate_Waitpid: "logs (replicate k (r, Waitpid p)) = []"
  by (induction k) simp_all

lemma SpawnSubprocess_parent:
  assumes "0 < fork_ret s" and "\<not> interrupted (waitpid_ret s n)"
    and "\<forall>j<n. interrupted (waitpid_ret s j)"
  shows "SpawnSubprocess b s argv envp preserve_fd use_path child_function =
     (let w = waitpid_ret s n;
          waits = (Parent, Fork) # replicate (Suc n) (Parent, Waitpid (fork_ret s))
      in if ret w = - 1
         then Some (waits @ [(Parent, Log (PLOG WARNING ''waitpid''))], Return True)
         else if dcheck_is_on b \<and> ret w \<noteq> fork_ret s
         then Some (waits @ [(Parent, Log (DCHECK_failed ''wait_pid == pid''))], Abort)
         else Some (waits @ map (\<lambda>l. (Parent, Log l)) (report_termination b (stat w)),
                    Return True))"
  using assms(1) parent_process_returns [OF assms(2,3), of b "fork_ret s"]
  by (simp add: SpawnSubprocess_def Let_def after_def)

subsection \<open>The termination report\<close>

text \<open>
  C4: the report on a wait status is decided by three tests in this order. A status with
  \<open>WIFSIGNALED\<close> gives one warning with the signal number, its name and the core dump
  flag; otherwise a status without \<open>WIFEXITED\<close> gives one warning with the raw status;
  otherwise an exit code other than \<open>EXIT_SUCCESS\<close> gives one warning with the code;
  otherwise nothing is logged. The four cases exclude each other and leave no status
  out. When \<open>waitpid\<close> returns the child's pid, the parent logs this report and nothing
  else.
\<close>

theorem C4_termination_report:
  "(WIFSIGNALED b st \<longrightarrow>
      report_termination b st =
        [LOG WARNING (Terminated_by_signal (WTERMSIG b st) (strsignal b (WTERMSIG b st))
           (WCOREDUMP b st))]) \<and>
   (\<not> WIFSIGNALED b st \<and> \<not> WIFEXITED b st \<longrightarrow>
      report_termination b st = [LOG WARNING (Unknown_termination st)]) \<and>
   (\<not> WIFSIGNALED b st \<and> WIFEXITED b st \<and> WEXITSTATUS b st \<noteq> EXIT_SUCCESS \<longrightarrow>
      report_termination b st = [LOG WARNING (Exited_with_code (WEXITSTATUS b st))]) \<and>
   (\<not> WIFSIGNALED b st \<and> WIFEXITED b st \<and> WEXITSTATUS b st = EXIT_SUCCESS \<longrightarrow>
      report_termination b st = []) \<and>
   (0 < fork_ret s \<and> \<not> interrupted (waitpid_ret s n) \<and> (\<forall>j<n. interrupted (waitpid_ret s j)) \<and>
    ret (waitpid_ret s n) = fork_ret s \<and> stat (waitpid_ret s n) = st \<longrightarrow>
      map_option (logs \<circ> fst)
        (SpawnSubprocess b s argv envp preserve_fd use_path child_function)
      = Some (report_termination b st))"
proof (intro conjI impI)
  assume "0 < fork_ret s \<and> \<not> interrupted (waitpid_ret s n) \<and>
    (\<forall>j<n. interrupted (waitpid_ret s j)) \<and>
    ret (waitpid_ret s n) = fork_ret s \<and> stat (waitpid_ret s n) = st"
  then show "map_option (logs \<circ> fst)
        (SpawnSubprocess b s argv envp preserve_fd use_path child_function)
      = Some (report_termination b st)"
    by (simp add: SpawnSubprocess_parent [of s n] Let_def logs_append logs_Log
        logs_replicate_Waitpid)
qed (simp_all add: report_termination_def Let_def)

theorem C4_termination_report_witness:
  "WIFSIGNALED (unix_build OtherPosix True) 134 \<and>
   report_termination (unix_build OtherPosix True) 134 =
     [LOG WARNING (Terminated_by_signal 6 ''Aborted'' True)] \<and>
   \<not> WIFSIGNALED (unix_build OtherPosix True) 127 \<and>
   \<not> WIFEXITED (unix_build OtherPosix True) 127 \<and>
   report_termination (unix_build OtherPosix True) 127 =
     [LOG WARNING (Unknown_termination 127)] \<and>
   \<not> WIFSIGNALED (unix_build OtherPosix True) 256 \<and>
   WIFEXITED (unix_build OtherPosix True) 256 \<and>
   WEXITSTATUS (unix_build OtherPosix True) 256 \<noteq> EXIT_SUCCESS \<and>
   report_termination (unix_build OtherPosix True) 256 = [LOG WARNING (Exited_with_code 1)] \<and>
   \<not> WIFSIGNALED (unix_build OtherPosix True) 0 \<and>
   WIFEXITED (unix_build OtherPosix True) 0 \<and>
   WEXITSTATUS (unix_build OtherPosix True) 0 = EXIT_SUCCESS \<and>
   report_termination (unix_build OtherPosix True) 0 = [] \<and>
   0 < fork_ret (calm_os\<lparr>fork_ret := 77\<rparr>) \<and>
   interrupted (waitpid_ret (calm_os\<lparr>fork_ret := 77\<rparr>) 0) \<and>
   interrupted (waitpid_ret (calm_os\<lparr>fork_ret := 77\<rparr>) 1) \<and>
   \<not> interrupted (waitpid_ret (calm_os\<lparr>fork_ret := 77\<rparr>) 2) \<and>
   ret (waitpid_ret (calm_os\<lparr>fork_ret := 77\<rparr>) 2) = fork_ret (calm_os\<lparr>fork_ret := 77\<rparr>) \<and>
   stat (waitpid_ret (calm_os\<lparr>fork_ret := 77\<rparr>) 2) = 0 \<and>
   map_option (logs \<circ> fst)
     (SpawnSubprocess (unix_build OtherPosix True) (calm_os\<lparr>fork_ret := 77\<rparr>)
        [''/bin/true''] None 5 False True) = Some []"
proof -
  have h: "0 < fork_ret (calm_os\<lparr>fork_ret := 77\<rparr>) \<and>
      \<not> interrupted (waitpid_ret (calm_os\<lparr>fork_ret := 77\<rparr>) 2) \<and>
      (\<forall>j<2. interrupted (waitpid_ret (calm_os\<lparr>fork_ret := 77\<rparr>) j)) \<and>
      ret (waitpid_ret (calm_os\<lparr>fork_ret := 77\<rparr>) 2) = fork_ret (calm_os\<lparr>fork_ret := 77\<rparr>) \<and>
      stat (waitpid_ret (calm_os\<lparr>fork_ret := 77\<rparr>) 2) = 0"
    by (simp add: calm_os_def interrupted_def EINTR_def)
  note c = C4_termination_report [of "unix_build OtherPosix True" _ "calm_os\<lparr>fork_ret := 77\<rparr>" 2
      "[''/bin/true'']" None 5 False True]
  have 1: "report_termination (unix_build OtherPosix True) 134 =
     [LOG WARNING (Terminated_by_signal 6 ''Aborted'' True)]"
    using c [of 134] by (simp add: unix_build_def)
  have 2: "report_termination (unix_build OtherPosix True) 127 =
     [LOG WARNING (Unknown_termination 127)]"
    using c [of 127] by (simp add: unix_build_def)
  have 3: "report_termination (unix_build OtherPosix True) 256 =
     [LOG WARNING (Exited_with_code 1)]"
    using c [of 256] by (simp add: unix_build_def EXIT_SUCCESS_def)
  have 4: "report_termination (unix_build OtherPosix True) 0 = []"
    using c [of 0] by (simp add: unix_build_def EXIT_SUCCESS_def)
  have 5: "map_option (logs \<circ> fst)
     (SpawnSubprocess (unix_build OtherPosix True) (calm_os\<lparr>fork_ret := 77\<rparr>)
        [''/bin/true''] None 5 False True) = Some []"
    using c [of 0] h 4 by simp
  from h 1 2 3 4 5 show ?thesis
    by (simp add: calm_os_def interrupted_def EINTR_def unix_build_def EXIT_SUCCESS_def)
qed

subsection \<open>Failure of the wait\<close>

text \<open>
  C6: when the \<open>waitpid\<close> call that ends the retries of interrupted calls returns \<open>-1\<close>,
  whatever the error number, the parent logs the warning \<open>waitpid\<close>, logs nothing else
  and returns \<open>true\<close>.
\<close>

theorem C6_wait_failure_returns_true:
  "0 < fork_ret s \<Longrightarrow> \<forall>j<n. interrupted (waitpid_ret s j) \<Longrightarrow>
   ret (waitpid_ret s n) = - 1 \<Longrightarrow> err (waitpid_ret s n) = e \<Longrightarrow> e \<noteq> EINTR \<Longrightarrow>
   SpawnSubprocess b s argv envp preserve_fd use_path child_function =
     Some ((Parent, Fork) # replicate (Suc n) (Parent, Waitpid (fork_ret s)) @
             [(Parent, Log (PLOG WARNING ''waitpid''))],
           Return True)"
  by (simp add: SpawnSubprocess_parent [of s n] interrupted_def Let_def)

theorem C6_wait_failure_returns_true_witness:
  "0 < fork_ret (calm_os\<lparr>fork_ret := 77, waitpid_ret := \<lambda>i. \<lparr>ret = - 1, err = 10, stat = 0\<rparr>\<rparr>) \<and>
   ret (waitpid_ret (calm_os\<lparr>fork_ret := 77,
          waitpid_ret := \<lambda>i. \<lparr>ret = - 1, err = 10, stat = 0\<rparr>\<rparr>) 0) = - 1 \<and>
   err (waitpid_ret (calm_os\<lparr>fork_ret := 77,
          waitpid_ret := \<lambda>i. \<lparr>ret = - 1, err = 10, stat = 0\<rparr>\<rparr>) 0) = 10 \<and>
   (10 :: int) \<noteq> EINTR \<and>
   SpawnSubprocess (unix_build Apple True)
     (calm_os\<lparr>fork_ret := 77, waitpid_ret := \<lambda>i. \<lparr>ret = - 1, err = 10, stat = 0\<rparr>\<rparr>)
     [''/bin/true''] None 5 False True =
   Some ([(Parent, Fork), (Parent, Waitpid 77), (Parent, Log (PLOG WARNING ''waitpid''))],
         Return True) \<and>
   interrupted (waitpid_ret (calm_os\<lparr>fork_ret := 77,
          waitpid_ret := \<lambda>i. \<lparr>ret = - 1, err = if i < 1 then 4 else 22, stat = 0\<rparr>\<rparr>) 0) \<and>
   SpawnSubprocess (unix_build Apple True)
     (calm_os\<lparr>fork_ret := 77,
        waitpid_ret := \<lambda>i. \<lparr>ret = - 1, err = if i < 1 then 4 else 22, stat = 0\<rparr>\<rparr>)
     [''/bin/true''] None 5 False True =
   Some ([(Parent, Fork), (Parent, Waitpid 77), (Parent, Waitpid 77),
          (Parent, Log (PLOG WARNING ''waitpid''))],
         Return True)"
  using
    C6_wait_failure_returns_true [of
      "calm_os\<lparr>fork_ret := 77, waitpid_ret := \<lambda>i. \<lparr>ret = - 1, err = 10, stat = 0\<rparr>\<rparr>" 0 10
      "unix_build Apple True" "[''/bin/true'']" None 5 False True]
    C6_wait_failure_returns_true [of
      "calm_os\<lparr>fork_ret := 77,
         waitpid_ret := \<lambda>i. \<lparr>ret = - 1, err = if i < 1 then 4 else 22, stat = 0\<rparr>\<rparr>" 1 22
      "unix_build Apple True" "[''/bin/true'']" None 5 False True]
  by (simp add: calm_os_def interrupted_def EINTR_def)

lemma none_fromI:
  assumes "\<forall>x\<in>set a. \<not> Q x" and "\<forall>x\<in>set r. \<not> P x"
  shows "none_from Q P (a @ r)"
proof -
  have "dropWhile (\<lambda>x. \<not> Q x) (a @ r) = dropWhile (\<lambda>x. \<not> Q x) r"
    using assms(1) by (simp add: dropWhile_append2)
  moreover have "\<forall>x\<in>set (dropWhile (\<lambda>x. \<not> Q x) r). \<not> P x"
    using assms(2) by (auto dest: set_dropWhileD)
  ultimately show ?thesis
    by (simp add: none_from_def list_ex_iff)
qed

lemma preparation_kind:
  "preparation x \<Longrightarrow> \<not> hook_action x \<and> \<not> setsid_action x \<and> spawn_step x \<and> fst x = Child"
  by (cases x rule: preparation.cases) simp_all

lemma child_process_shape:
  assumes "child_process b s argv_c envp envp_c preserve_fd use_path child_function = (t, out)"
  shows "(child_function \<and> \<not> child_function_returns s \<and> t = [(Child, Child_function)]) \<or>
    (\<exists>rest. t = (if child_function then [(Child, Child_function)] else []) @
                 (Child, Setsid) # rest \<and>
       (child_function \<longrightarrow> child_function_returns s) \<and>
       (\<forall>x\<in>set rest. \<not> hook_action x \<and> \<not> setsid_action x) \<and>
       (list_ex spawn_step rest \<longrightarrow> setsid_ret s \<noteq> - 1))"
  using assms
  by (cases rule: child_process_cases) (auto simp add: list_ex_iff dest: preparation_kind)

lemma parent_process_actions:
  assumes "parent_process b s pid = Some (t, out)"
  shows "\<forall>x\<in>set t. \<not> hook_action x \<and> \<not> setsid_action x \<and> \<not> spawn_step x"
  using assms
  by (auto simp add: parent_process_def Let_def split: option.splits if_splits)


lemma SpawnSubprocess_child:
  assumes "fork_ret s = 0"
  shows "SpawnSubprocess b s argv envp preserve_fd use_path child_function = Some (t, out) \<longleftrightarrow>
    (\<exists>t'. t = (Parent, Fork) # t' \<and>
       child_process b s (c_strs argv) envp (case envp of Some e \<Rightarrow> c_strs e | None \<Rightarrow> [])
         preserve_fd use_path child_function = (t', out))"
proof -
  obtain t0 out0 where cp:
    "child_process b s (c_strs argv) envp (case envp of Some e \<Rightarrow> c_strs e | None \<Rightarrow> [])
       preserve_fd use_path child_function = (t0, out0)"
    by (cases "child_process b s (c_strs argv) envp
          (case envp of Some e \<Rightarrow> c_strs e | None \<Rightarrow> []) preserve_fd use_path child_function")
  have "SpawnSubprocess b s argv envp preserve_fd use_path child_function =
      Some ((Parent, Fork) # t0, out0)"
    using assms by (simp add: SpawnSubprocess_def Let_def cp after_def)
  then show ?thesis
    by (auto simp add: cp)
qed

lemma SpawnSubprocess_parent_run:
  assumes "0 < fork_ret s"
  shows "SpawnSubprocess b s argv envp preserve_fd use_path child_function = Some (t, out) \<longleftrightarrow>
    (\<exists>t'. t = (Parent, Fork) # t' \<and> parent_process b s (fork_ret s) = Some (t', out))"
proof (cases "parent_process b s (fork_ret s)")
  case None
  with assms show ?thesis
    by (simp add: SpawnSubprocess_def Let_def)
next
  case (Some r)
  obtain t0 out0 where "r = (t0, out0)"
    by (cases r)
  with Some assms have "SpawnSubprocess b s argv envp preserve_fd use_path child_function =
      Some ((Parent, Fork) # t0, out0)"
    by (simp add: SpawnSubprocess_def Let_def after_def)
  with Some \<open>r = (t0, out0)\<close> show ?thesis
    by auto
qed

subsection \<open>Order of the steps in the child\<close>

text \<open>
  C3: in every run the hook is called by the child only; the parent's run has no call of
  it, and the child's run has exactly one when the hook pointer is non-null and none
  otherwise. \<open>setsid\<close> is called by the child only and at most once; when it is called and
  there is a hook, the hook was called and returned, and no call of the hook comes at or
  after \<open>setsid\<close>. When a step of the spawn strategy is performed, \<open>setsid\<close> was called
  and succeeded, and no \<open>setsid\<close> comes at or after the first such step.
\<close>

theorem C3_hook_then_setsid_then_spawn:
  assumes "SpawnSubprocess b s argv envp preserve_fd use_path child_function = Some (t, out)"
  shows "(\<forall>x\<in>set t. hook_action x \<or> setsid_action x \<longrightarrow> fst x = Child) \<and>
    (fork_ret s \<noteq> 0 \<longrightarrow> \<not> list_ex hook_action t) \<and>
    (fork_ret s = 0 \<longrightarrow> length (filter hook_action t) = (if child_function then 1 else 0)) \<and>
    (list_ex setsid_action t \<and> child_function \<longrightarrow>
       list_ex hook_action t \<and> child_function_returns s) \<and>
    none_from setsid_action hook_action t \<and>
    length (filter setsid_action t) \<le> 1 \<and>
    (list_ex spawn_step t \<longrightarrow> list_ex setsid_action t \<and> setsid_ret s \<noteq> - 1) \<and>
    none_from spawn_step setsid_action t"
proof -
  consider (fails) "fork_ret s < 0" | (child) "fork_ret s = 0" | (parent) "0 < fork_ret s"
    by linarith
  then show ?thesis
  proof cases
    case fails
    with assms have t: "t = [(Parent, Fork), (Parent, Log (PLOG ERROR ''fork''))]"
      by (simp add: SpawnSubprocess_def)
    show ?thesis
      using fails by (simp add: t none_from_def)
  next
    case parent
    with assms obtain t' where t: "t = (Parent, Fork) # t'"
      and "parent_process b s (fork_ret s) = Some (t', out)"
      by (auto simp add: SpawnSubprocess_parent_run)
    from parent_process_actions [OF this(2)]
    have no: "\<forall>x\<in>set t. \<not> hook_action x \<and> \<not> setsid_action x \<and> \<not> spawn_step x"
      by (simp add: t)
    then have empty: "filter hook_action t = []" "filter setsid_action t = []"
      by (simp_all add: filter_empty_conv)
    have "none_from setsid_action hook_action ([] @ t)"
      "none_from spawn_step setsid_action ([] @ t)"
      using no by (intro none_fromI; simp)+
    with no empty parent show ?thesis
      by (simp add: list_ex_iff)
  next
    case child
    define hook where "hook = (if child_function then [(Child, Child_function)] else [])"
    from child assms obtain t' where t: "t = (Parent, Fork) # t'"
      and "child_process b s (c_strs argv) envp (case envp of Some e \<Rightarrow> c_strs e | None \<Rightarrow> [])
             preserve_fd use_path child_function = (t', out)"
      by (auto simp add: SpawnSubprocess_child)
    from child_process_shape [OF this(2), folded hook_def] consider
      (hangs) "child_function" "\<not> child_function_returns s" "t' = [(Child, Child_function)]"
      | (goes_on) rest where "t' = hook @ (Child, Setsid) # rest"
        "child_function \<longrightarrow> child_function_returns s"
        "\<forall>x\<in>set rest. \<not> hook_action x \<and> \<not> setsid_action x"
        "list_ex spawn_step rest \<longrightarrow> setsid_ret s \<noteq> - 1"
      by blast
    then show ?thesis
    proof cases
      case hangs
      with child show ?thesis
        by (simp add: t none_from_def)
    next
      case goes_on
      have hook: "\<forall>x\<in>set hook. hook_action x \<and> \<not> setsid_action x \<and> \<not> spawn_step x \<and> fst x = Child"
        "length hook = (if child_function then 1 else 0)"
        "child_function \<longrightarrow> hook \<noteq> []"
        by (simp_all add: hook_def)
      have t_eq: "t = ((Parent, Fork) # hook) @ ((Child, Setsid) # rest)"
        "t = ((Parent, Fork) # hook @ [(Child, Setsid)]) @ rest"
        by (simp_all add: t goes_on(1))
      have 1: "none_from setsid_action hook_action t"
        unfolding t_eq(1) using hook(1) goes_on(3) by (intro none_fromI) auto
      have 2: "none_from spawn_step setsid_action t"
        unfolding t_eq(2) using hook(1) goes_on(3) by (intro none_fromI) auto
      have 3: "filter hook_action t = hook" "filter setsid_action t = [(Child, Setsid)]"
        using hook(1) goes_on(3) by (simp_all add: t_eq(1) filter_empty_conv filter_id_conv)
      have 4: "\<forall>x\<in>set t. hook_action x \<or> setsid_action x \<longrightarrow> fst x = Child"
        using hook(1) goes_on(3) by (auto simp add: t_eq(1))
      have 5: "list_ex spawn_step t \<longrightarrow> setsid_ret s \<noteq> - 1"
        using hook(1) goes_on(4) by (auto simp add: t_eq(1) list_ex_iff)
      have 6: "list_ex setsid_action t"
        by (simp add: t_eq(1) list_ex_iff)
      have 7: "child_function \<longrightarrow> list_ex hook_action t"
        using hook(1,3) by (cases hook) (auto simp add: t_eq(1) list_ex_iff)
      from 1 2 3 4 5 6 7 hook(2) goes_on(2) child show ?thesis
        by simp
    qed
  qed
qed


lemmas run_defs =
  SpawnSubprocess_def child_process_def spawn_apple_def spawn_other_def
  spawn_android_legacy_def posix_spawn_then_exit_def pcheck_libc_def after_def c_strs_def
  c_str_def
  Let_def

theorem C3_hook_then_setsid_then_spawn_witness:
  "SpawnSubprocess (unix_build OtherPosix True) calm_os [''/bin/true''] None 5 False True =
     Some ([(Parent, Fork), (Child, Child_function), (Child, Setsid),
            (Child, Close_multiple (STDERR_FILENO + 1) 5),
            (Child, Posix_spawn
               (call_with False [Some ''/bin/true'', None] (environ calm_os) None None
                  (CloseMultipleNowOrOnExec (STDERR_FILENO + 1) 5 (descriptor_table calm_os))))],
           Underscore_exit EXIT_SUCCESS) \<and>
   length (filter hook_action
     [(Parent, Fork), (Child, Child_function), (Child, Setsid),
      (Child, Close_multiple (STDERR_FILENO + 1) 5),
      (Child, Posix_spawn
         (call_with False [Some ''/bin/true'', None] (environ calm_os) None None
            (CloseMultipleNowOrOnExec (STDERR_FILENO + 1) 5 (descriptor_table calm_os))))]) = 1 \<and>
   none_from setsid_action hook_action
     [(Parent, Fork), (Child, Child_function), (Child, Setsid),
      (Child, Close_multiple (STDERR_FILENO + 1) 5),
      (Child, Posix_spawn
         (call_with False [Some ''/bin/true'', None] (environ calm_os) None None
            (CloseMultipleNowOrOnExec (STDERR_FILENO + 1) 5 (descriptor_table calm_os))))] \<and>
   none_from spawn_step setsid_action
     [(Parent, Fork), (Child, Child_function), (Child, Setsid),
      (Child, Close_multiple (STDERR_FILENO + 1) 5),
      (Child, Posix_spawn
         (call_with False [Some ''/bin/true'', None] (environ calm_os) None None
            (CloseMultipleNowOrOnExec (STDERR_FILENO + 1) 5 (descriptor_table calm_os))))]"
proof -
  have run: "SpawnSubprocess (unix_build OtherPosix True) calm_os [''/bin/true''] None 5 False
      True =
     Some ([(Parent, Fork), (Child, Child_function), (Child, Setsid),
            (Child, Close_multiple (STDERR_FILENO + 1) 5),
            (Child, Posix_spawn
               (call_with False [Some ''/bin/true'', None] (environ calm_os) None None
                  (CloseMultipleNowOrOnExec (STDERR_FILENO + 1) 5 (descriptor_table calm_os))))],
           Underscore_exit EXIT_SUCCESS)"
    by (simp add: run_defs calm_os_def unix_build_def)
  have "fork_ret calm_os = 0"
    by (simp add: calm_os_def)
  with C3_hook_then_setsid_then_spawn [OF run] run show ?thesis
    by simp
qed

lemma preparation_not_call:
  assumes "\<forall>x\<in>set pre. preparation x"
  shows "(r, Posix_spawn c) \<notin> set pre" "(r, Exec c) \<notin> set pre" "(r, Fork) \<notin> set pre"
    "(r, Setsid) \<notin> set pre" "(r, Child_function) \<notin> set pre" "(r, Log l) \<notin> set pre"
    "(r, Waitpid p) \<notin> set pre"
  using assms by (auto dest: bspec [where x = "(r, Posix_spawn c)"]
      bspec [where x = "(r, Exec c)"] bspec [where x = "(r, Fork)"]
      bspec [where x = "(r, Setsid)"] bspec [where x = "(r, Child_function)"]
      bspec [where x = "(r, Log l)"] bspec [where x = "(r, Waitpid p)"] preparation_kind)

subsection \<open>How the child leaves\<close>

text \<open>
  C8: in the run of the child, when \<open>posix_spawn\<close> was called and succeeded, the child
  leaves by \<open>_exit(EXIT_SUCCESS)\<close> and the spawn call is its last action; on Android
  before API level 28 the same holds for the process in which the second \<open>fork\<close> returned
  a pid. The child never leaves by returning from \<open>SpawnSubprocess\<close> nor by \<open>exit\<close>.
\<close>

theorem C8_child_leaves_by_underscore_exit:
  assumes "SpawnSubprocess b s argv envp preserve_fd use_path child_function = Some (t, out)"
    and "fork_ret s = 0"
  shows "(\<forall>c. (Child, Posix_spawn c) \<in> set t \<and> spawn_err s = 0 \<longrightarrow>
            out = Underscore_exit EXIT_SUCCESS \<and> last t = (Child, Posix_spawn c)) \<and>
    ((Child, Fork) \<in> set t \<and> 0 < fork2_ret s \<longrightarrow>
       out = Underscore_exit EXIT_SUCCESS \<and> last t = (Child, Fork)) \<and>
    (\<forall>x. out \<noteq> Return x) \<and> (\<forall>n. out \<noteq> Normal_exit n)"
proof -
  from assms obtain t' where t: "t = (Parent, Fork) # t'"
    and "child_process b s (c_strs argv) envp (case envp of Some e \<Rightarrow> c_strs e | None \<Rightarrow> [])
           preserve_fd use_path child_function = (t', out)"
    by (auto simp add: SpawnSubprocess_child)
  from this(2) show ?thesis
    by (cases rule: child_process_cases)
      (auto simp add: t preparation_not_call split: if_splits)
qed

theorem C8_child_leaves_by_underscore_exit_witness:
  "fork_ret calm_os = 0 \<and> spawn_err calm_os = 0 \<and>
   SpawnSubprocess (unix_build OtherPosix True) calm_os [''/bin/true''] None 5 False True =
     Some ([(Parent, Fork), (Child, Child_function), (Child, Setsid),
            (Child, Close_multiple (STDERR_FILENO + 1) 5),
            (Child, Posix_spawn
               (call_with False [Some ''/bin/true'', None] (environ calm_os) None None
                  (CloseMultipleNowOrOnExec (STDERR_FILENO + 1) 5 (descriptor_table calm_os))))],
           Underscore_exit EXIT_SUCCESS) \<and>
   fork_ret (calm_os\<lparr>fork2_ret := 88\<rparr>) = 0 \<and> 0 < fork2_ret (calm_os\<lparr>fork2_ret := 88\<rparr>) \<and>
   SpawnSubprocess (unix_build AndroidLegacy True) (calm_os\<lparr>fork2_ret := 88\<rparr>)
       [''/bin/true''] None 5 False True =
     Some ([(Parent, Fork), (Child, Child_function), (Child, Setsid), (Child, Fork)],
           Underscore_exit EXIT_SUCCESS)"
proof -
  let ?c = "call_with False [Some ''/bin/true'', None] (environ calm_os) None None
      (CloseMultipleNowOrOnExec (STDERR_FILENO + 1) 5 (descriptor_table calm_os))"
  obtain t1 out1 where run1:
    "SpawnSubprocess (unix_build OtherPosix True) calm_os [''/bin/true''] None 5 False True
       = Some (t1, out1)"
    and t1: "t1 = [(Parent, Fork), (Child, Child_function), (Child, Setsid),
               (Child, Close_multiple (STDERR_FILENO + 1) 5), (Child, Posix_spawn ?c)]"
    by (simp add: run_defs calm_os_def unix_build_def)
  obtain t2 out2 where run2:
    "SpawnSubprocess (unix_build AndroidLegacy True) (calm_os\<lparr>fork2_ret := 88\<rparr>)
       [''/bin/true''] None 5 False True = Some (t2, out2)"
    and t2: "t2 = [(Parent, Fork), (Child, Child_function), (Child, Setsid), (Child, Fork)]"
    by (simp add: run_defs calm_os_def unix_build_def)
  have f: "fork_ret calm_os = 0" "spawn_err calm_os = 0"
    "fork_ret (calm_os\<lparr>fork2_ret := 88\<rparr>) = 0" "0 < fork2_ret (calm_os\<lparr>fork2_ret := 88\<rparr>)"
    by (simp_all add: calm_os_def)
  have "out1 = Underscore_exit EXIT_SUCCESS"
    using C8_child_leaves_by_underscore_exit [OF run1 f(1)] f(2) by (auto simp add: t1)
  moreover have "out2 = Underscore_exit EXIT_SUCCESS"
    using C8_child_leaves_by_underscore_exit [OF run2 f(3)] f(4) by (auto simp add: t2)
  ultimately show ?thesis
    using run1 run2 t1 t2 f by simp
qed

lemma SpawnSubprocess_calls:
  assumes run: "SpawnSubprocess b s argv envp preserve_fd use_path child_function = Some (t, out)"
    and call: "(r, Posix_spawn c) \<in> set t \<or> (r, Exec c) \<in> set t"
  shows "fork_ret s = 0 \<and>
    c = call_with use_path (c_strs argv) (case envp of Some e \<Rightarrow> c_strs e | None \<Rightarrow> environ s)
          (if platform b = Apple then Some [0, 1, 2, preserve_fd] else None)
          (if platform b = Apple then Some POSIX_SPAWN_CLOEXEC_DEFAULT else None)
          (if platform b = Apple then descriptor_table s
           else CloseMultipleNowOrOnExec (STDERR_FILENO + 1) preserve_fd (descriptor_table s)) \<and>
    (if platform b = AndroidLegacy then r = Grandchild \<and> (r, Exec c) \<in> set t
     else r = Child \<and> (r, Posix_spawn c) \<in> set t)"
proof -
  consider (fails) "fork_ret s < 0" | (child) "fork_ret s = 0" | (parent) "0 < fork_ret s"
    by linarith
  then show ?thesis
  proof cases
    case fails
    with run call show ?thesis
      by (auto simp add: SpawnSubprocess_def)
  next
    case parent
    with run obtain t' where "t = (Parent, Fork) # t'"
      and "parent_process b s (fork_ret s) = Some (t', out)"
      by (auto simp add: SpawnSubprocess_parent_run)
    with parent_process_actions [OF this(2)] call show ?thesis
      by auto
  next
    case child
    with run obtain t' where t: "t = (Parent, Fork) # t'"
      and "child_process b s (c_strs argv) envp (case envp of Some e \<Rightarrow> c_strs e | None \<Rightarrow> [])
             preserve_fd use_path child_function = (t', out)"
      by (auto simp add: SpawnSubprocess_child)
    from this(2) call child show ?thesis
      by (cases rule: child_process_cases)
        (auto simp add: t preparation_not_call split: if_splits option.splits)
  qed
qed

lemma waits_append: "waits (t @ u) = waits t @ waits u"
  by (induction t rule: waits.induct) simp_all

lemma waits_Log: "waits (map (\<lambda>l. (r, Log l)) ls) = []"
  by (induction ls) simp_all

lemma waits_replicate: "waits (replicate k (r, Waitpid p)) = replicate k (r, p)"
  by (induction k) simp_all

lemma waits_preparation: "\<forall>x\<in>set pre. preparation x \<Longrightarrow> waits pre = []"
proof (induction pre)
  case Nil
  then show ?case by simp
next
  case (Cons x pre)
  then have "preparation x" and "waits pre = []"
    by simp_all
  then show ?case
    by (cases x rule: preparation.cases) simp_all
qed

lemma child_process_waits:
  assumes "child_process b s argv_c envp envp_c preserve_fd use_path child_function = (t, out)"
  shows "waits t = []"
  using assms
  by (cases rule: child_process_cases) (simp_all add: waits_append waits_preparation)

lemma parent_process_waits:
  assumes "parent_process b s pid = Some (t, out)"
  shows "\<exists>n. waits t = replicate (Suc n) (Parent, pid) \<and> \<not> interrupted (waitpid_ret s n) \<and>
    (\<forall>j<n. interrupted (waitpid_ret s j))"
proof -
  from assms obtain n w where loop: "HANDLE_EINTR_waitpid (waitpid_ret s) 0 = Some (n, w)"
    by (auto simp add: parent_process_def split: option.splits)
  from HANDLE_EINTR_waitpid_result [OF loop]
  have n: "\<not> interrupted (waitpid_ret s n)" "\<forall>j<n. interrupted (waitpid_ret s j)"
    by auto
  from parent_process_returns [OF n, of b pid] assms
  have "waits t = replicate (Suc n) (Parent, pid)"
    by (auto simp add: Let_def waits_append waits_Log waits_replicate split: if_splits)
  with n show ?thesis
    by blast
qed

subsection \<open>The waits of the parent\<close>

text \<open>
  C9, as the code has it: every \<open>waitpid\<close> call of a run is made by the parent on the pid
  that the first \<open>fork\<close> returned, the pid of the child. When that \<open>fork\<close> failed, and in
  the runs of the child and the grandchild, there is no \<open>waitpid\<close> call. When it
  succeeded, the parent's calls are the interrupted ones, which \<open>HANDLE_EINTR\<close> repeats,
  and one call that is not interrupted; and the parent does get that far as soon as some
  call is not interrupted.
\<close>

theorem C9_waits_only_for_the_child:
  "(SpawnSubprocess b s argv envp preserve_fd use_path child_function = Some (t, out) \<longrightarrow>
      (\<forall>x\<in>set (waits t). x = (Parent, fork_ret s)) \<and>
      (fork_ret s \<le> 0 \<longrightarrow> waits t = []) \<and>
      (0 < fork_ret s \<longrightarrow>
         (\<exists>n. waits t = replicate (Suc n) (Parent, fork_ret s) \<and>
              \<not> interrupted (waitpid_ret s n) \<and> (\<forall>j<n. interrupted (waitpid_ret s j))))) \<and>
   (0 < fork_ret s \<and> \<not> interrupted (waitpid_ret s n) \<and> (\<forall>j<n. interrupted (waitpid_ret s j)) \<longrightarrow>
      map_option (waits \<circ> fst)
        (SpawnSubprocess b s argv envp preserve_fd use_path child_function)
      = Some (replicate (Suc n) (Parent, fork_ret s)))"
proof (intro conjI impI)
  assume run: "SpawnSubprocess b s argv envp preserve_fd use_path child_function = Some (t, out)"
  consider (fails) "fork_ret s < 0" | (child) "fork_ret s = 0" | (parent) "0 < fork_ret s"
    by linarith
  then have "(fork_ret s \<le> 0 \<and> waits t = []) \<or>
    (0 < fork_ret s \<and> (\<exists>n. waits t = replicate (Suc n) (Parent, fork_ret s) \<and>
       \<not> interrupted (waitpid_ret s n) \<and> (\<forall>j<n. interrupted (waitpid_ret s j))))"
  proof cases
    case fails
    with run show ?thesis
      by (auto simp add: SpawnSubprocess_def)
  next
    case child
    with run obtain t' where "t = (Parent, Fork) # t'"
      and "child_process b s (c_strs argv) envp (case envp of Some e \<Rightarrow> c_strs e | None \<Rightarrow> [])
             preserve_fd use_path child_function = (t', out)"
      by (auto simp add: SpawnSubprocess_child)
    with child_process_waits [OF this(2)] child show ?thesis
      by simp
  next
    case parent
    with run obtain t' where "t = (Parent, Fork) # t'"
      and "parent_process b s (fork_ret s) = Some (t', out)"
      by (auto simp add: SpawnSubprocess_parent_run)
    with parent_process_waits [OF this(2)] parent show ?thesis
      by simp
  qed
  then show "\<forall>x\<in>set (waits t). x = (Parent, fork_ret s)"
    and "fork_ret s \<le> 0 \<Longrightarrow> waits t = []"
    and "0 < fork_ret s \<Longrightarrow> \<exists>n. waits t = replicate (Suc n) (Parent, fork_ret s) \<and>
       \<not> interrupted (waitpid_ret s n) \<and> (\<forall>j<n. interrupted (waitpid_ret s j))"
    by auto
next
  assume "0 < fork_ret s \<and> \<not> interrupted (waitpid_ret s n) \<and>
    (\<forall>j<n. interrupted (waitpid_ret s j))"
  then show "map_option (waits \<circ> fst)
      (SpawnSubprocess b s argv envp preserve_fd use_path child_function)
    = Some (replicate (Suc n) (Parent, fork_ret s))"
    by (simp add: SpawnSubprocess_parent [of s n] Let_def waits_append waits_Log
        waits_replicate)
qed

theorem C9_waits_only_for_the_child_witness:
  "0 < fork_ret (calm_os\<lparr>fork_ret := 77\<rparr>) \<and>
   interrupted (waitpid_ret (calm_os\<lparr>fork_ret := 77\<rparr>) 0) \<and>
   interrupted (waitpid_ret (calm_os\<lparr>fork_ret := 77\<rparr>) 1) \<and>
   \<not> interrupted (waitpid_ret (calm_os\<lparr>fork_ret := 77\<rparr>) 2) \<and>
   SpawnSubprocess (unix_build Apple True) (calm_os\<lparr>fork_ret := 77\<rparr>) [''/bin/true''] None 5
       False True =
     Some ([(Parent, Fork), (Parent, Waitpid 77), (Parent, Waitpid 77), (Parent, Waitpid 77)],
           Return True) \<and>
   waits [(Parent, Fork), (Parent, Waitpid 77), (Parent, Waitpid 77), (Parent, Waitpid 77)] =
     [(Parent, 77), (Parent, 77), (Parent, 77)]"
proof -
  let ?s = "calm_os\<lparr>fork_ret := 77\<rparr>"
  have h: "0 < fork_ret ?s \<and> \<not> interrupted (waitpid_ret ?s 2) \<and>
      (\<forall>j<2. interrupted (waitpid_ret ?s j))"
    by (simp add: calm_os_def interrupted_def EINTR_def)
  have run: "SpawnSubprocess (unix_build Apple True) ?s [''/bin/true''] None 5 False True =
     Some ([(Parent, Fork), (Parent, Waitpid 77), (Parent, Waitpid 77), (Parent, Waitpid 77)],
           Return True)"
    using h SpawnSubprocess_parent [of ?s 2 "unix_build Apple True" "[''/bin/true'']" None 5
        False True]
    by (simp add: Let_def calm_os_def unix_build_def report_termination_def EXIT_SUCCESS_def
        interrupted_def EINTR_def numeral_2_eq_2)
  have "\<forall>x\<in>set (waits [(Parent, Fork), (Parent, Waitpid 77), (Parent, Waitpid 77),
        (Parent, Waitpid 77)]). x = (Parent, fork_ret ?s)"
    using C9_waits_only_for_the_child [of "unix_build Apple True" ?s "[''/bin/true'']" None 5
      False True "[(Parent, Fork), (Parent, Waitpid 77), (Parent, Waitpid 77),
        (Parent, Waitpid 77)]" "Return True" 2] run
    by blast
  then have w: "waits [(Parent, Fork), (Parent, Waitpid 77), (Parent, Waitpid 77),
      (Parent, Waitpid 77)] = [(Parent, 77), (Parent, 77), (Parent, 77)]"
    by simp
  have i: "interrupted (waitpid_ret ?s 0)" "interrupted (waitpid_ret ?s 1)"
    "\<not> interrupted (waitpid_ret ?s 2)" "0 < fork_ret ?s"
    by (simp_all add: calm_os_def interrupted_def EINTR_def)
  from i run w show ?thesis
    by (intro conjI)
qed

text \<open>
  C9 as it is stated, one wait in every invocation, fails where the first \<open>fork\<close> fails:
  the parent returns \<open>false\<close> without any \<open>waitpid\<close> call.
\<close>

theorem C9_no_wait_when_fork_fails:
  "SpawnSubprocess (unix_build Apple True) (calm_os\<lparr>fork_ret := - 1\<rparr>) [''/bin/true''] None 5
       False True =
     Some ([(Parent, Fork), (Parent, Log (PLOG ERROR ''fork''))], Return False) \<and>
   length (waits [(Parent, Fork), (Parent, Log (PLOG ERROR ''fork''))]) \<noteq> 1"
  by (simp add: SpawnSubprocess_def calm_os_def)

lemma SpawnSubprocess_failed_call:
  assumes run: "SpawnSubprocess b s argv envp preserve_fd use_path child_function = Some (t, out)"
    and failed: "((r, Posix_spawn c) \<in> set t \<and> spawn_err s \<noteq> 0) \<or>
                 ((r, Exec c) \<in> set t \<and> exec_fails s)"
  shows "out = Abort \<and>
    last t = (r, Log (PLOG_path FATAL
       (if platform b = AndroidLegacy then (if use_path then ''execvpe'' else ''execve'')
        else (if use_path then ''posix_spawnp'' else ''posix_spawn'')) (path c))) \<and>
    r = (if platform b = AndroidLegacy then Grandchild else Child)"
proof -
  from failed have call: "(r, Posix_spawn c) \<in> set t \<or> (r, Exec c) \<in> set t"
    by blast
  from SpawnSubprocess_calls [OF run call] have child: "fork_ret s = 0"
    by simp
  with run obtain t' where t: "t = (Parent, Fork) # t'"
    and "child_process b s (c_strs argv) envp (case envp of Some e \<Rightarrow> c_strs e | None \<Rightarrow> [])
           preserve_fd use_path child_function = (t', out)"
    by (auto simp add: SpawnSubprocess_child)
  from this(2) failed show ?thesis
    by (cases rule: child_process_cases)
      (auto simp add: t preparation_not_call call_with_def split: if_splits)
qed

lemma SpawnSubprocess_second_fork:
  assumes run: "SpawnSubprocess b s argv envp preserve_fd use_path child_function = Some (t, out)"
    and "fork_ret s = 0" and "(Child, Fork) \<in> set t" and "0 < fork2_ret s"
  shows "out = Underscore_exit EXIT_SUCCESS"
proof -
  from assms obtain t' where t: "t = (Parent, Fork) # t'"
    and "child_process b s (c_strs argv) envp (case envp of Some e \<Rightarrow> c_strs e | None \<Rightarrow> [])
           preserve_fd use_path child_function = (t', out)"
    by (auto simp add: SpawnSubprocess_child)
  from this(2) assms(3,4) show ?thesis
    by (cases rule: child_process_cases)
      (auto simp add: t preparation_not_call split: if_splits)
qed

lemma SpawnSubprocess_parent_report:
  assumes "0 < fork_ret s" and "\<not> interrupted (waitpid_ret s n)"
    and "\<forall>j<n. interrupted (waitpid_ret s j)" and "ret (waitpid_ret s n) = fork_ret s"
  shows "map_option (\<lambda>x. (logs (fst x), snd x))
      (SpawnSubprocess b s argv envp preserve_fd use_path child_function) =
    Some (report_termination b (stat (waitpid_ret s n)), Return True)"
  using assms
  by (simp add: SpawnSubprocess_parent [of s n] Let_def logs_append logs_Log
      logs_replicate_Waitpid)

subsection \<open>Failure of the spawn or exec call\<close>

text \<open>
  C5, as the code has it. When a run makes a spawn or exec call and the call fails, the
  process that made it logs a fatal message naming the function and the program and
  aborts; that is its last action. On the Apple and the other POSIX builds this process
  is the child: the parent, whose \<open>waitpid\<close> reports a status that describes the abort,
  logs one warning, that the child was terminated by a signal, and returns \<open>true\<close>. On
  Android before API level 28 the process is the grandchild: the child, in which the
  second \<open>fork\<close> returned a pid, has left with \<open>_exit(EXIT_SUCCESS)\<close>, and the parent,
  whose \<open>waitpid\<close> reports a status that describes this exit, logs nothing and returns
  \<open>true\<close>.
\<close>

theorem C5_failed_spawn_aborts:
  assumes "SpawnSubprocess b sc argv envp preserve_fd use_path child_function = Some (tc, outc)"
    and "((r, Posix_spawn c) \<in> set tc \<and> spawn_err sc \<noteq> 0) \<or>
         ((r, Exec c) \<in> set tc \<and> exec_fails sc)"
  shows "outc = Abort \<and>
    last tc = (r, Log (PLOG_path FATAL
       (if platform b = AndroidLegacy then (if use_path then ''execvpe'' else ''execve'')
        else (if use_path then ''posix_spawnp'' else ''posix_spawn'')) (path c))) \<and>
    r = (if platform b = AndroidLegacy then Grandchild else Child) \<and>
    (platform b \<noteq> AndroidLegacy \<and>
     0 < fork_ret sp \<and> \<not> interrupted (waitpid_ret sp n) \<and>
     (\<forall>j<n. interrupted (waitpid_ret sp j)) \<and> ret (waitpid_ret sp n) = fork_ret sp \<and>
     status_describes b outc (stat (waitpid_ret sp n)) \<longrightarrow>
       map_option (\<lambda>x. (logs (fst x), snd x))
         (SpawnSubprocess b sp argv envp preserve_fd use_path child_function) =
       Some ([LOG WARNING (Terminated_by_signal (WTERMSIG b (stat (waitpid_ret sp n)))
                (strsignal b (WTERMSIG b (stat (waitpid_ret sp n))))
                (WCOREDUMP b (stat (waitpid_ret sp n))))],
             Return True)) \<and>
    (platform b = AndroidLegacy \<and>
     SpawnSubprocess b sc' argv envp preserve_fd use_path child_function = Some (tc', outc') \<and>
     fork_ret sc' = 0 \<and> (Child, Fork) \<in> set tc' \<and> 0 < fork2_ret sc' \<and>
     0 < fork_ret sp \<and> \<not> interrupted (waitpid_ret sp n) \<and>
     (\<forall>j<n. interrupted (waitpid_ret sp j)) \<and> ret (waitpid_ret sp n) = fork_ret sp \<and>
     status_describes b outc' (stat (waitpid_ret sp n)) \<longrightarrow>
       outc' = Underscore_exit EXIT_SUCCESS \<and>
       map_option (\<lambda>x. (logs (fst x), snd x))
         (SpawnSubprocess b sp argv envp preserve_fd use_path child_function) =
       Some ([], Return True))"
proof -
  note first = SpawnSubprocess_failed_call [OF assms]
  have second: "map_option (\<lambda>x. (logs (fst x), snd x))
         (SpawnSubprocess b sp argv envp preserve_fd use_path child_function) =
       Some ([LOG WARNING (Terminated_by_signal (WTERMSIG b (stat (waitpid_ret sp n)))
                (strsignal b (WTERMSIG b (stat (waitpid_ret sp n))))
                (WCOREDUMP b (stat (waitpid_ret sp n))))],
             Return True)"
    if "0 < fork_ret sp" "\<not> interrupted (waitpid_ret sp n)"
      "\<forall>j<n. interrupted (waitpid_ret sp j)" "ret (waitpid_ret sp n) = fork_ret sp"
      "status_describes b outc (stat (waitpid_ret sp n))"
  proof -
    from that(5) first have "WIFSIGNALED b (stat (waitpid_ret sp n))"
      by (simp add: status_describes_def)
    then show ?thesis
      by (simp add: SpawnSubprocess_parent_report [OF that(1-4)] report_termination_def Let_def)
  qed
  have third: "outc' = Underscore_exit EXIT_SUCCESS \<and>
       map_option (\<lambda>x. (logs (fst x), snd x))
         (SpawnSubprocess b sp argv envp preserve_fd use_path child_function) =
       Some ([], Return True)"
    if "SpawnSubprocess b sc' argv envp preserve_fd use_path child_function = Some (tc', outc')"
      "fork_ret sc' = 0" "(Child, Fork) \<in> set tc'" "0 < fork2_ret sc'"
      "0 < fork_ret sp" "\<not> interrupted (waitpid_ret sp n)"
      "\<forall>j<n. interrupted (waitpid_ret sp j)" "ret (waitpid_ret sp n) = fork_ret sp"
      "status_describes b outc' (stat (waitpid_ret sp n))"
  proof -
    from SpawnSubprocess_second_fork [OF that(1-4)]
    have out: "outc' = Underscore_exit EXIT_SUCCESS" .
    with that(9) have "\<not> WIFSIGNALED b (stat (waitpid_ret sp n))"
      "WIFEXITED b (stat (waitpid_ret sp n))"
      "WEXITSTATUS b (stat (waitpid_ret sp n)) = EXIT_SUCCESS"
      by (simp_all add: status_describes_def EXIT_SUCCESS_def)
    with out show ?thesis
      by (simp add: SpawnSubprocess_parent_report [OF that(5-8)] report_termination_def)
  qed
  from first second third show ?thesis
    by blast
qed


theorem C5_failed_spawn_aborts_witness:
  "SpawnSubprocess (unix_build OtherPosix True) (calm_os\<lparr>spawn_err := 2\<rparr>)
       [''/nonexistent/binary''] None 5 False False =
     Some ([(Parent, Fork), (Child, Setsid), (Child, Close_multiple (STDERR_FILENO + 1) 5),
            (Child, Posix_spawn
               (call_with False [Some ''/nonexistent/binary'', None] (environ calm_os) None None
                  (CloseMultipleNowOrOnExec (STDERR_FILENO + 1) 5 (descriptor_table calm_os)))),
            (Child, Log (PLOG_path FATAL ''posix_spawn'' (Some ''/nonexistent/binary'')))],
           Abort) \<and>
   spawn_err (calm_os\<lparr>spawn_err := 2\<rparr>) \<noteq> 0 \<and>
   status_describes (unix_build OtherPosix True) Abort 134 \<and>
   map_option (\<lambda>x. (logs (fst x), snd x))
     (SpawnSubprocess (unix_build OtherPosix True)
        (calm_os\<lparr>fork_ret := 77, waitpid_ret := \<lambda>i. \<lparr>ret = 77, err = 0, stat = 134\<rparr>\<rparr>)
        [''/nonexistent/binary''] None 5 False False) =
     Some ([LOG WARNING (Terminated_by_signal 6 ''Aborted'' True)], Return True) \<and>
   SpawnSubprocess (unix_build AndroidLegacy True) (calm_os\<lparr>exec_fails := True\<rparr>)
       [''/nonexistent/binary''] None 5 False False =
     Some ([(Parent, Fork), (Child, Setsid), (Child, Fork),
            (Grandchild, Close_multiple (STDERR_FILENO + 1) 5),
            (Grandchild, Exec
               (call_with False [Some ''/nonexistent/binary'', None] (environ calm_os) None None
                  (CloseMultipleNowOrOnExec (STDERR_FILENO + 1) 5 (descriptor_table calm_os)))),
            (Grandchild, Log (PLOG_path FATAL ''execve'' (Some ''/nonexistent/binary'')))],
           Abort) \<and>
   exec_fails (calm_os\<lparr>exec_fails := True\<rparr>) \<and>
   SpawnSubprocess (unix_build AndroidLegacy True) (calm_os\<lparr>exec_fails := True, fork2_ret := 88\<rparr>)
       [''/nonexistent/binary''] None 5 False False =
     Some ([(Parent, Fork), (Child, Setsid), (Child, Fork)], Underscore_exit EXIT_SUCCESS) \<and>
   status_describes (unix_build AndroidLegacy True) (Underscore_exit EXIT_SUCCESS) 0 \<and>
   map_option (\<lambda>x. (logs (fst x), snd x))
     (SpawnSubprocess (unix_build AndroidLegacy True) (calm_os\<lparr>fork_ret := 77\<rparr>)
        [''/nonexistent/binary''] None 5 False False) =
     Some ([], Return True)"
proof -
  let ?argv = "[''/nonexistent/binary'']"
  let ?c = "call_with False [Some ''/nonexistent/binary'', None] (environ calm_os) None None
      (CloseMultipleNowOrOnExec (STDERR_FILENO + 1) 5 (descriptor_table calm_os))"
  let ?t1 = "[(Parent, Fork), (Child, Setsid), (Child, Close_multiple (STDERR_FILENO + 1) 5),
      (Child, Posix_spawn ?c),
      (Child, Log (PLOG_path FATAL ''posix_spawn'' (Some ''/nonexistent/binary'')))]"
  let ?t2 = "[(Parent, Fork), (Child, Setsid), (Child, Fork),
      (Grandchild, Close_multiple (STDERR_FILENO + 1) 5), (Grandchild, Exec ?c),
      (Grandchild, Log (PLOG_path FATAL ''execve'' (Some ''/nonexistent/binary'')))]"
  let ?t3 = "[(Parent, Fork), (Child, Setsid), (Child, Fork)]"
  let ?sp1 = "calm_os\<lparr>fork_ret := 77, waitpid_ret := \<lambda>i. \<lparr>ret = 77, err = 0, stat = 134\<rparr>\<rparr>"
  let ?sp2 = "calm_os\<lparr>fork_ret := 77\<rparr>"
  have run1: "SpawnSubprocess (unix_build OtherPosix True) (calm_os\<lparr>spawn_err := 2\<rparr>) ?argv
      None 5 False False = Some (?t1, Abort)"
    by (simp add: run_defs calm_os_def unix_build_def call_with_def)
  have fail1: "((Child, Posix_spawn ?c) \<in> set ?t1 \<and> spawn_err (calm_os\<lparr>spawn_err := 2\<rparr>) \<noteq> 0) \<or>
      ((Child, Exec ?c) \<in> set ?t1 \<and> exec_fails (calm_os\<lparr>spawn_err := 2\<rparr>))"
    by simp
  have sd1: "status_describes (unix_build OtherPosix True) Abort 134"
    by (simp add: status_describes_def unix_build_def)
  have p1: "platform (unix_build OtherPosix True) \<noteq> AndroidLegacy \<and>
      0 < fork_ret ?sp1 \<and> \<not> interrupted (waitpid_ret ?sp1 0) \<and>
      (\<forall>j<0. interrupted (waitpid_ret ?sp1 j)) \<and> ret (waitpid_ret ?sp1 0) = fork_ret ?sp1 \<and>
      status_describes (unix_build OtherPosix True) Abort (stat (waitpid_ret ?sp1 0))"
    using sd1 by (simp add: calm_os_def interrupted_def unix_build_def)
  have w1: "map_option (\<lambda>x. (logs (fst x), snd x))
      (SpawnSubprocess (unix_build OtherPosix True) ?sp1 ?argv None 5 False False) =
      Some ([LOG WARNING (Terminated_by_signal 6 ''Aborted'' True)], Return True)"
    using C5_failed_spawn_aborts [OF run1 fail1, of ?sp1 0 "calm_os\<lparr>spawn_err := 2\<rparr>" ?t1 Abort]
      p1
    by (simp add: unix_build_def calm_os_def)
  have run2: "SpawnSubprocess (unix_build AndroidLegacy True) (calm_os\<lparr>exec_fails := True\<rparr>)
      ?argv None 5 False False = Some (?t2, Abort)"
    by (simp add: run_defs calm_os_def unix_build_def)
  have fail2: "((Grandchild, Posix_spawn ?c) \<in> set ?t2 \<and>
        spawn_err (calm_os\<lparr>exec_fails := True\<rparr>) \<noteq> 0) \<or>
      ((Grandchild, Exec ?c) \<in> set ?t2 \<and> exec_fails (calm_os\<lparr>exec_fails := True\<rparr>))"
    by simp
  have run3: "SpawnSubprocess (unix_build AndroidLegacy True)
      (calm_os\<lparr>exec_fails := True, fork2_ret := 88\<rparr>) ?argv None 5 False False =
      Some (?t3, Underscore_exit EXIT_SUCCESS)"
    by (simp add: run_defs calm_os_def unix_build_def)
  have sd2: "status_describes (unix_build AndroidLegacy True) (Underscore_exit EXIT_SUCCESS) 0"
    by (simp add: status_describes_def unix_build_def EXIT_SUCCESS_def)
  have p2: "platform (unix_build AndroidLegacy True) = AndroidLegacy \<and>
      fork_ret (calm_os\<lparr>exec_fails := True, fork2_ret := 88\<rparr>) = 0 \<and>
      (Child, Fork) \<in> set ?t3 \<and> 0 < fork2_ret (calm_os\<lparr>exec_fails := True, fork2_ret := 88\<rparr>) \<and>
      0 < fork_ret ?sp2 \<and> \<not> interrupted (waitpid_ret ?sp2 2) \<and>
      (\<forall>j<2. interrupted (waitpid_ret ?sp2 j)) \<and> ret (waitpid_ret ?sp2 2) = fork_ret ?sp2 \<and>
      status_describes (unix_build AndroidLegacy True) (Underscore_exit EXIT_SUCCESS)
        (stat (waitpid_ret ?sp2 2))"
    using sd2 by (simp add: calm_os_def interrupted_def EINTR_def unix_build_def)
  have w2: "map_option (\<lambda>x. (logs (fst x), snd x))
      (SpawnSubprocess (unix_build AndroidLegacy True) ?sp2 ?argv None 5 False False) =
      Some ([], Return True)"
    using C5_failed_spawn_aborts [OF run2 fail2, of ?sp2 2
        "calm_os\<lparr>exec_fails := True, fork2_ret := 88\<rparr>" ?t3 "Underscore_exit EXIT_SUCCESS"]
      p2 run3
    by blast
  have "spawn_err (calm_os\<lparr>spawn_err := 2\<rparr>) \<noteq> 0" "exec_fails (calm_os\<lparr>exec_fails := True\<rparr>)"
    by simp_all
  with run1 sd1 w1 run2 run3 sd2 w2 show ?thesis
    by (intro conjI)
qed

text \<open>
  C5 as it is stated, the failure shows as a warning about the abnormal end of the
  intermediate process, fails on Android before API level 28. With a program that does
  not exist and no path search, the grandchild aborts in \<open>execve\<close>; the child has left
  with \<open>_exit(EXIT_SUCCESS)\<close>; the parent reaps the child, gets the status \<open>0\<close> that
  describes this exit, logs nothing and returns \<open>true\<close>.
\<close>

theorem C5_android_failure_without_warning:
  "SpawnSubprocess (unix_build AndroidLegacy False) (calm_os\<lparr>exec_fails := True\<rparr>)
       [''/nonexistent/binary''] None 5 False False =
     Some ([(Parent, Fork), (Child, Setsid), (Child, Fork),
            (Grandchild, Close_multiple (STDERR_FILENO + 1) 5),
            (Grandchild, Exec
               (call_with False [Some ''/nonexistent/binary'', None] (environ calm_os) None None
                  (CloseMultipleNowOrOnExec (STDERR_FILENO + 1) 5 (descriptor_table calm_os)))),
            (Grandchild, Log (PLOG_path FATAL ''execve'' (Some ''/nonexistent/binary'')))],
           Abort) \<and>
   SpawnSubprocess (unix_build AndroidLegacy False)
       (calm_os\<lparr>exec_fails := True, fork2_ret := 88\<rparr>)
       [''/nonexistent/binary''] None 5 False False =
     Some ([(Parent, Fork), (Child, Setsid), (Child, Fork)], Underscore_exit EXIT_SUCCESS) \<and>
   status_describes (unix_build AndroidLegacy False) (Underscore_exit EXIT_SUCCESS)
     (stat (waitpid_ret (calm_os\<lparr>exec_fails := True, fork_ret := 77\<rparr>) 2)) \<and>
   SpawnSubprocess (unix_build AndroidLegacy False)
       (calm_os\<lparr>exec_fails := True, fork_ret := 77\<rparr>)
       [''/nonexistent/binary''] None 5 False False =
     Some ([(Parent, Fork), (Parent, Waitpid 77), (Parent, Waitpid 77), (Parent, Waitpid 77)],
           Return True) \<and>
   logs [(Parent, Fork), (Parent, Waitpid 77), (Parent, Waitpid 77), (Parent, Waitpid 77)] = []"
proof (intro conjI)
  let ?sp = "calm_os\<lparr>exec_fails := True, fork_ret := 77\<rparr>"
  have h: "0 < fork_ret ?sp" "\<not> interrupted (waitpid_ret ?sp 2)"
    "\<forall>j<2. interrupted (waitpid_ret ?sp j)"
    by (simp_all add: calm_os_def interrupted_def EINTR_def)
  show "SpawnSubprocess (unix_build AndroidLegacy False) ?sp [''/nonexistent/binary''] None 5
      False False =
     Some ([(Parent, Fork), (Parent, Waitpid 77), (Parent, Waitpid 77), (Parent, Waitpid 77)],
           Return True)"
    using SpawnSubprocess_parent [OF h, of "unix_build AndroidLegacy False"
        "[''/nonexistent/binary'']" None 5 False False]
    by (simp add: Let_def calm_os_def unix_build_def report_termination_def EXIT_SUCCESS_def
        numeral_2_eq_2)
qed (simp_all add: run_defs calm_os_def unix_build_def status_describes_def EXIT_SUCCESS_def)

subsection \<open>The call that a run makes\<close>

lemma set_calls:
  "(r, c) \<in> set (calls t) \<longleftrightarrow> (r, Posix_spawn c) \<in> set t \<or> (r, Exec c) \<in> set t"
  by (induction t rule: calls.induct) auto

lemma SpawnSubprocess_makes_call:
  assumes "reaches_call b s preserve_fd child_function"
  shows "map_option (calls \<circ> fst)
      (SpawnSubprocess b s argv envp preserve_fd use_path child_function) =
    Some [(if platform b = AndroidLegacy then Grandchild else Child,
           call_with use_path (c_strs argv)
             (case envp of Some e \<Rightarrow> c_strs e | None \<Rightarrow> environ s)
             (if platform b = Apple then Some [0, 1, 2, preserve_fd] else None)
             (if platform b = Apple then Some POSIX_SPAWN_CLOEXEC_DEFAULT else None)
             (if platform b = Apple then descriptor_table s
              else CloseMultipleNowOrOnExec (STDERR_FILENO + 1) preserve_fd
                     (descriptor_table s)))]"
proof (cases "platform b")
  case AndroidLegacy
  with assms show ?thesis
    by (cases envp)
      (auto simp add: reaches_call_def SpawnSubprocess_def child_process_def
        spawn_android_legacy_def after_def Let_def)
next
  case Apple
  with assms show ?thesis
    by (cases envp)
      (auto simp add: reaches_call_def apple_preparations_def SpawnSubprocess_def
        child_process_def spawn_apple_def upto_STDERR_FILENO pcheck_libc_def
        posix_spawn_then_exit_def after_def Let_def)
next
  case OtherPosix
  with assms show ?thesis
    by (cases envp)
      (auto simp add: reaches_call_def SpawnSubprocess_def child_process_def
        spawn_other_def posix_spawn_then_exit_def after_def Let_def)
qed

lemma c_vector_contents_c_strs: "c_vector_contents (c_strs v) = map c_str v"
  by (induction v) (simp_all add: c_strs_def)

lemma c_str_without_NUL: "CHR 0x00 \<notin> set x \<Longrightarrow> c_str x = x"
  by (auto simp add: c_str_def takeWhile_eq_all_conv)

lemma inherited_fds_declarative:
  "inherited_fds (call_with use_path argv_c envp_c (Some fa) (Some POSIX_SPAWN_CLOEXEC_DEFAULT) T)
     = {d \<in> opened T. int d \<in> set fa}"
  by (simp add: inherited_fds_def listed_fds_def cloexec_default_def call_with_def
      POSIX_SPAWN_CLOEXEC_DEFAULT_def)

lemma inherited_fds_imperative:
  "inherited_fds (call_with use_path argv_c envp_c None None T)
     = {d \<in> opened T. d \<notin> close_on_exec T}"
  by (simp add: inherited_fds_def listed_fds_def cloexec_default_def call_with_def)

lemma CloseMultipleNowOrOnExec_keeps:
  "opened (CloseMultipleNowOrOnExec (STDERR_FILENO + 1) preserve_fd T) =
     {d \<in> opened T. int d \<in> {0, 1, 2, preserve_fd}}"
  "close_on_exec (CloseMultipleNowOrOnExec (STDERR_FILENO + 1) preserve_fd T) = close_on_exec T"
  by (auto simp add: CloseMultipleNowOrOnExec_def STDERR_FILENO_def)


lemma SpawnSubprocess_environment:
  assumes "SpawnSubprocess b s argv envp preserve_fd use_path child_function = Some (t, out)"
    and "(r, c) \<in> set (calls t)"
  shows "envp_for_spawn c =
      (case envp of Some e \<Rightarrow> map (\<lambda>x. Some (c_str x)) e @ [None] | None \<Rightarrow> environ s) \<and>
    environment (new_image c) =
      (case envp of Some e \<Rightarrow> map c_str e | None \<Rightarrow> c_vector_contents (environ s)) \<and>
    (\<forall>e. envp = Some e \<and> (\<forall>x\<in>set e. CHR 0x00 \<notin> set x) \<longrightarrow> environment (new_image c) = e)"
proof -
  from assms(2) have "(r, Posix_spawn c) \<in> set t \<or> (r, Exec c) \<in> set t"
    by (simp add: set_calls)
  from SpawnSubprocess_calls [OF assms(1) this]
  have env: "envp_for_spawn c = (case envp of Some e \<Rightarrow> c_strs e | None \<Rightarrow> environ s)"
    by (simp add: call_with_def)
  have same: "map c_str e = e" if "\<forall>x\<in>set e. CHR 0x00 \<notin> set x" for e
    using that by (simp add: map_idI c_str_without_NUL)
  have read: "c_vector_contents (map (\<lambda>x. Some (c_str x)) e @ [None]) = map c_str e" for e
    using c_vector_contents_c_strs [of e] by (simp add: c_strs_def)
  from env same read show ?thesis
    by (cases envp) (auto simp add: new_image_def c_strs_def)
qed

subsection \<open>The environment of the new program\<close>

text \<open>
  C7, as the code has it. A run that gets as far as its spawn or exec call makes exactly
  one such call, and every such call of every run hands over this environment. When
  \<open>envp\<close> is given, the vector holds one \<open>c_str()\<close> pointer for each string of \<open>envp\<close>, in
  their order, and then \<open>nullptr\<close>; the new program reads each string up to its first NUL
  byte, so it reads exactly the list \<open>envp\<close> when no string of it holds a NUL byte, and
  nothing of \<open>environ\<close>. When \<open>envp\<close> is null the vector is \<open>environ\<close> itself.
\<close>

theorem C7_environment_handoff:
  "(reaches_call b s preserve_fd child_function \<longrightarrow>
      (\<exists>t out r c.
         SpawnSubprocess b s argv envp preserve_fd use_path child_function = Some (t, out) \<and>
         calls t = [(r, c)] \<and>
         envp_for_spawn c =
           (case envp of Some e \<Rightarrow> map (\<lambda>x. Some (c_str x)) e @ [None] | None \<Rightarrow> environ s) \<and>
         environment (new_image c) =
           (case envp of Some e \<Rightarrow> map c_str e | None \<Rightarrow> c_vector_contents (environ s)) \<and>
         (\<forall>e. envp = Some e \<and> (\<forall>x\<in>set e. CHR 0x00 \<notin> set x) \<longrightarrow>
              environment (new_image c) = e))) \<and>
   (SpawnSubprocess b s argv envp preserve_fd use_path child_function = Some (t', out') \<and>
    (r', c') \<in> set (calls t') \<longrightarrow>
      envp_for_spawn c' =
        (case envp of Some e \<Rightarrow> map (\<lambda>x. Some (c_str x)) e @ [None] | None \<Rightarrow> environ s) \<and>
      environment (new_image c') =
        (case envp of Some e \<Rightarrow> map c_str e | None \<Rightarrow> c_vector_contents (environ s)) \<and>
      (\<forall>e. envp = Some e \<and> (\<forall>x\<in>set e. CHR 0x00 \<notin> set x) \<longrightarrow>
           environment (new_image c') = e))"
proof (intro conjI impI)
  assume "reaches_call b s preserve_fd child_function"
  from SpawnSubprocess_makes_call [OF this, of argv envp use_path]
  obtain t out r c
    where run: "SpawnSubprocess b s argv envp preserve_fd use_path child_function = Some (t, out)"
      and c: "calls t = [(r, c)]"
    by auto
  from c have "(r, c) \<in> set (calls t)"
    by simp
  from SpawnSubprocess_environment [OF run this] run c
  show "\<exists>t out r c.
         SpawnSubprocess b s argv envp preserve_fd use_path child_function = Some (t, out) \<and>
         calls t = [(r, c)] \<and>
         envp_for_spawn c =
           (case envp of Some e \<Rightarrow> map (\<lambda>x. Some (c_str x)) e @ [None] | None \<Rightarrow> environ s) \<and>
         environment (new_image c) =
           (case envp of Some e \<Rightarrow> map c_str e | None \<Rightarrow> c_vector_contents (environ s)) \<and>
         (\<forall>e. envp = Some e \<and> (\<forall>x\<in>set e. CHR 0x00 \<notin> set x) \<longrightarrow>
              environment (new_image c) = e)"
    by blast
next
  assume "SpawnSubprocess b s argv envp preserve_fd use_path child_function = Some (t', out') \<and>
    (r', c') \<in> set (calls t')"
  then have run: "SpawnSubprocess b s argv envp preserve_fd use_path child_function
      = Some (t', out')"
    and c: "(r', c') \<in> set (calls t')"
    by simp_all
  from SpawnSubprocess_environment [OF run c]
  show "envp_for_spawn c' =
      (case envp of Some e \<Rightarrow> map (\<lambda>x. Some (c_str x)) e @ [None] | None \<Rightarrow> environ s)"
    and "environment (new_image c') =
      (case envp of Some e \<Rightarrow> map c_str e | None \<Rightarrow> c_vector_contents (environ s))"
    and "\<forall>e. envp = Some e \<and> (\<forall>x\<in>set e. CHR 0x00 \<notin> set x) \<longrightarrow>
      environment (new_image c') = e"
    by blast+
qed


theorem C7_environment_handoff_witness:
  "reaches_call (unix_build Apple True) calm_os 5 True \<and>
   CHR 0x00 \<notin> set ''A=1'' \<and> CHR 0x00 \<notin> set ''B=2'' \<and>
   map_option (calls \<circ> fst)
     (SpawnSubprocess (unix_build Apple True) calm_os [''/bin/true'']
        (Some [''A=1'', ''B=2'']) 5 False True) =
     Some [(Child,
            call_with False [Some ''/bin/true'', None] [Some ''A=1'', Some ''B=2'', None]
              (Some [0, 1, 2, 5]) (Some POSIX_SPAWN_CLOEXEC_DEFAULT)
              (descriptor_table calm_os))] \<and>
   environment (new_image
      (call_with False [Some ''/bin/true'', None] [Some ''A=1'', Some ''B=2'', None]
         (Some [0, 1, 2, 5]) (Some POSIX_SPAWN_CLOEXEC_DEFAULT) (descriptor_table calm_os)))
     = [''A=1'', ''B=2''] \<and>
   reaches_call (unix_build OtherPosix True) calm_os 5 True \<and>
   map_option (calls \<circ> fst)
     (SpawnSubprocess (unix_build OtherPosix True) calm_os [''/bin/true'']
        (Some [''A=1'', ''B=2'']) 5 False True) =
     Some [(Child,
            call_with False [Some ''/bin/true'', None] [Some ''A=1'', Some ''B=2'', None]
              None None
              (CloseMultipleNowOrOnExec (STDERR_FILENO + 1) 5 (descriptor_table calm_os)))] \<and>
   environment (new_image
      (call_with False [Some ''/bin/true'', None] [Some ''A=1'', Some ''B=2'', None] None None
         (CloseMultipleNowOrOnExec (STDERR_FILENO + 1) 5 (descriptor_table calm_os))))
     = [''A=1'', ''B=2''] \<and>
   reaches_call (unix_build AndroidLegacy True) calm_os 5 False \<and>
   map_option (calls \<circ> fst)
     (SpawnSubprocess (unix_build AndroidLegacy True) calm_os [''true''] None 5 True False) =
     Some [(Grandchild,
            call_with True [Some ''true'', None] (environ calm_os) None None
              (CloseMultipleNowOrOnExec (STDERR_FILENO + 1) 5 (descriptor_table calm_os)))] \<and>
   environment (new_image
      (call_with True [Some ''true'', None] (environ calm_os) None None
         (CloseMultipleNowOrOnExec (STDERR_FILENO + 1) 5 (descriptor_table calm_os))))
     = [''HOME=/'']"
proof -
  let ?e = "[''A=1'', ''B=2'']"
  let ?closed = "CloseMultipleNowOrOnExec (STDERR_FILENO + 1) 5 (descriptor_table calm_os)"
  let ?ca = "call_with False [Some ''/bin/true'', None] [Some ''A=1'', Some ''B=2'', None]
      (Some [0, 1, 2, 5]) (Some POSIX_SPAWN_CLOEXEC_DEFAULT) (descriptor_table calm_os)"
  let ?co = "call_with False [Some ''/bin/true'', None] [Some ''A=1'', Some ''B=2'', None]
      None None ?closed"
  let ?cg = "call_with True [Some ''true'', None] (environ calm_os) None None ?closed"
  have reach: "reaches_call (unix_build Apple True) calm_os 5 True"
    "reaches_call (unix_build OtherPosix True) calm_os 5 True"
    "reaches_call (unix_build AndroidLegacy True) calm_os 5 False"
    by (simp_all add: reaches_call_def apple_preparations_def calm_os_def unix_build_def)
  have nul: "CHR 0x00 \<notin> set ''A=1''" "CHR 0x00 \<notin> set ''B=2''"
    by simp_all
  have ca: "map_option (calls \<circ> fst)
      (SpawnSubprocess (unix_build Apple True) calm_os [''/bin/true''] (Some ?e) 5 False True)
      = Some [(Child, ?ca)]"
    by (simp add: run_defs calm_os_def unix_build_def upto_STDERR_FILENO)
  have co: "map_option (calls \<circ> fst)
      (SpawnSubprocess (unix_build OtherPosix True) calm_os [''/bin/true''] (Some ?e) 5 False
         True)
      = Some [(Child, ?co)]"
    by (simp add: run_defs calm_os_def unix_build_def)
  have cg: "map_option (calls \<circ> fst)
      (SpawnSubprocess (unix_build AndroidLegacy True) calm_os [''true''] None 5 True False)
      = Some [(Grandchild, ?cg)]"
    by (simp add: run_defs calm_os_def unix_build_def)
  from ca obtain ta oa where runa:
    "SpawnSubprocess (unix_build Apple True) calm_os [''/bin/true''] (Some ?e) 5 False True
       = Some (ta, oa)" and "calls ta = [(Child, ?ca)]"
    by auto
  with C7_environment_handoff [of "unix_build Apple True" calm_os 5 True "[''/bin/true'']"
        "Some ?e" False ta oa Child ?ca]
  have ea: "environment (new_image ?ca) = ?e"
    by (simp add: c_str_def)
  from co obtain to oo where runo:
    "SpawnSubprocess (unix_build OtherPosix True) calm_os [''/bin/true''] (Some ?e) 5 False True
       = Some (to, oo)" and "calls to = [(Child, ?co)]"
    by auto
  with C7_environment_handoff [of "unix_build OtherPosix True" calm_os 5 True
        "[''/bin/true'']" "Some ?e" False to oo Child ?co]
  have eo: "environment (new_image ?co) = ?e"
    by (simp add: c_str_def)
  from cg obtain tg og where rung:
    "SpawnSubprocess (unix_build AndroidLegacy True) calm_os [''true''] None 5 True False
       = Some (tg, og)" and "calls tg = [(Grandchild, ?cg)]"
    by auto
  with C7_environment_handoff [of "unix_build AndroidLegacy True" calm_os 5 False
        "[''true'']" None True tg og Grandchild ?cg]
  have "environment (new_image ?cg) = c_vector_contents (environ calm_os)"
    by simp
  then have eg: "environment (new_image ?cg) = [''HOME=/'']"
    by (simp add: calm_os_def)
  from reach nul ca ea co eo cg eg show ?thesis
    by (intro conjI)
qed

text \<open>
  C7 as it is stated, the new program receives exactly the list, fails for a string with
  a NUL byte in it: of \<open>A=1\<close>, a NUL byte and \<open>HIDDEN\<close> the new program reads \<open>A=1\<close>.
\<close>

theorem C7_string_cut_at_NUL:
  "map_option (calls \<circ> fst)
     (SpawnSubprocess (unix_build OtherPosix True) calm_os [''/bin/true'']
        (Some [''A=1'' @ [CHR 0x00] @ ''HIDDEN'']) 5 False True) =
     Some [(Child,
            call_with False [Some ''/bin/true'', None] [Some ''A=1'', None] None None
              (CloseMultipleNowOrOnExec (STDERR_FILENO + 1) 5 (descriptor_table calm_os)))] \<and>
   environment (new_image
      (call_with False [Some ''/bin/true'', None] [Some ''A=1'', None] None None
         (CloseMultipleNowOrOnExec (STDERR_FILENO + 1) 5 (descriptor_table calm_os))))
     = [''A=1''] \<and>
   [''A=1''] \<noteq> [''A=1'' @ [CHR 0x00] @ ''HIDDEN'']"
  by (simp add: run_defs calm_os_def unix_build_def new_image_def call_with_def)

lemma descriptors_declarative:
  "descriptors (new_image (call_with use_path argv_c envp_c (Some [0, 1, 2, preserve_fd])
      (Some POSIX_SPAWN_CLOEXEC_DEFAULT) T)) =
    {d \<in> opened T. int d \<in> {0, 1, 2, preserve_fd}}"
  by (simp add: new_image_def inherited_fds_declarative)

lemma descriptors_imperative:
  "descriptors (new_image (call_with use_path argv_c envp_c None None
      (CloseMultipleNowOrOnExec (STDERR_FILENO + 1) preserve_fd T))) =
    {d \<in> opened T. int d \<in> {0, 1, 2, preserve_fd} \<and> d \<notin> close_on_exec T}"
  by (auto simp add: new_image_def inherited_fds_imperative CloseMultipleNowOrOnExec_keeps)

subsection \<open>The descriptors of the new program\<close>

text \<open>
  C2, as the code has it. Take a run on the Apple build and a run on a build that closes
  descriptors before its call, both far enough to make the call, with the same
  descriptor table and the same \<open>preserve_fd\<close>. The Apple run makes one \<open>posix_spawn\<close>
  call, with the inherit list \<open>0\<close>, \<open>1\<close>, \<open>2\<close>, \<open>preserve_fd\<close>, the flag
  \<open>POSIX_SPAWN_CLOEXEC_DEFAULT\<close> and the table untouched: the new program gets the open
  descriptors among these four. The other run makes one spawn or exec call, with null
  file actions and attributes, after closing from \<open>STDERR_FILENO + 1\<close> on except
  \<open>preserve_fd\<close>: the new program gets the open descriptors among these four that are not
  marked close-on-exec. So the two agree when no open descriptor among the four is
  marked, and then, when all four are open, both give exactly these four.
\<close>

theorem C2_descriptor_policies:
  assumes "platform ba = Apple" and "platform bo \<noteq> Apple"
    and "reaches_call ba s preserve_fd child_function"
    and "reaches_call bo s preserve_fd child_function"
    and "ca = call_with use_path (c_strs argv)
           (case envp of Some e \<Rightarrow> c_strs e | None \<Rightarrow> environ s)
           (Some [0, 1, 2, preserve_fd]) (Some POSIX_SPAWN_CLOEXEC_DEFAULT)
           (descriptor_table s)"
    and "co = call_with use_path (c_strs argv)
           (case envp of Some e \<Rightarrow> c_strs e | None \<Rightarrow> environ s) None None
           (CloseMultipleNowOrOnExec (STDERR_FILENO + 1) preserve_fd (descriptor_table s))"
  shows "map_option (calls \<circ> fst)
      (SpawnSubprocess ba s argv envp preserve_fd use_path child_function) =
      Some [(Child, ca)] \<and>
    map_option (calls \<circ> fst)
      (SpawnSubprocess bo s argv envp preserve_fd use_path child_function) =
      Some [(if platform bo = AndroidLegacy then Grandchild else Child, co)] \<and>
    descriptors (new_image ca) =
      {d \<in> opened (descriptor_table s). int d \<in> {0, 1, 2, preserve_fd}} \<and>
    descriptors (new_image co) =
      {d \<in> opened (descriptor_table s).
         int d \<in> {0, 1, 2, preserve_fd} \<and> d \<notin> close_on_exec (descriptor_table s)} \<and>
    ((\<forall>d\<in>opened (descriptor_table s).
         int d \<in> {0, 1, 2, preserve_fd} \<longrightarrow> d \<notin> close_on_exec (descriptor_table s)) \<longrightarrow>
       descriptors (new_image ca) = descriptors (new_image co)) \<and>
    (0 \<le> preserve_fd \<and> {0, 1, 2, nat preserve_fd} \<subseteq> opened (descriptor_table s) \<and>
     {0, 1, 2, nat preserve_fd} \<inter> close_on_exec (descriptor_table s) = {} \<longrightarrow>
       descriptors (new_image ca) = {0, 1, 2, nat preserve_fd} \<and>
       descriptors (new_image co) = {0, 1, 2, nat preserve_fd})"
proof -
  have a: "map_option (calls \<circ> fst)
      (SpawnSubprocess ba s argv envp preserve_fd use_path child_function) =
      Some [(Child, ca)]"
    using SpawnSubprocess_makes_call [OF assms(3), of argv envp use_path] assms(1,5)
    by simp
  have o: "map_option (calls \<circ> fst)
      (SpawnSubprocess bo s argv envp preserve_fd use_path child_function) =
      Some [(if platform bo = AndroidLegacy then Grandchild else Child, co)]"
    using SpawnSubprocess_makes_call [OF assms(4), of argv envp use_path] assms(2,6)
    by simp
  have da: "descriptors (new_image ca) =
      {d \<in> opened (descriptor_table s). int d \<in> {0, 1, 2, preserve_fd}}"
    unfolding assms(5) by (rule descriptors_declarative)
  have do: "descriptors (new_image co) =
      {d \<in> opened (descriptor_table s).
         int d \<in> {0, 1, 2, preserve_fd} \<and> d \<notin> close_on_exec (descriptor_table s)}"
    unfolding assms(6) by (rule descriptors_imperative)
  have same: "descriptors (new_image ca) = descriptors (new_image co)"
    if "\<forall>d\<in>opened (descriptor_table s).
         int d \<in> {0, 1, 2, preserve_fd} \<longrightarrow> d \<notin> close_on_exec (descriptor_table s)"
    unfolding da do using that by blast
  have four: "descriptors (new_image ca) = {0, 1, 2, nat preserve_fd} \<and>
      descriptors (new_image co) = {0, 1, 2, nat preserve_fd}"
    if "0 \<le> preserve_fd" "{0, 1, 2, nat preserve_fd} \<subseteq> opened (descriptor_table s)"
      "{0, 1, 2, nat preserve_fd} \<inter> close_on_exec (descriptor_table s) = {}"
    unfolding da do using that by auto
  from a o da do same four show ?thesis
    by blast
qed


theorem C2_descriptor_policies_witness:
  "platform (unix_build Apple True) = Apple \<and>
   platform (unix_build OtherPosix True) \<noteq> Apple \<and>
   platform (unix_build AndroidLegacy True) \<noteq> Apple \<and>
   reaches_call (unix_build Apple True) calm_os 5 True \<and>
   reaches_call (unix_build OtherPosix True) calm_os 5 True \<and>
   reaches_call (unix_build AndroidLegacy True) calm_os 5 True \<and>
   (0 :: int) \<le> 5 \<and> {0, 1, 2, nat 5} \<subseteq> opened (descriptor_table calm_os) \<and>
   {0, 1, 2, nat 5} \<inter> close_on_exec (descriptor_table calm_os) = {} \<and>
   map_option (calls \<circ> fst)
     (SpawnSubprocess (unix_build Apple True) calm_os [''/bin/true''] None 5 False True) =
     Some [(Child,
            call_with False [Some ''/bin/true'', None] (environ calm_os) (Some [0, 1, 2, 5])
              (Some POSIX_SPAWN_CLOEXEC_DEFAULT) (descriptor_table calm_os))] \<and>
   map_option (calls \<circ> fst)
     (SpawnSubprocess (unix_build OtherPosix True) calm_os [''/bin/true''] None 5 False True) =
     Some [(Child,
            call_with False [Some ''/bin/true'', None] (environ calm_os) None None
              (CloseMultipleNowOrOnExec (STDERR_FILENO + 1) 5 (descriptor_table calm_os)))] \<and>
   map_option (calls \<circ> fst)
     (SpawnSubprocess (unix_build AndroidLegacy True) calm_os [''/bin/true''] None 5 False
        True) =
     Some [(Grandchild,
            call_with False [Some ''/bin/true'', None] (environ calm_os) None None
              (CloseMultipleNowOrOnExec (STDERR_FILENO + 1) 5 (descriptor_table calm_os)))] \<and>
   descriptors (new_image
      (call_with False [Some ''/bin/true'', None] (environ calm_os) (Some [0, 1, 2, 5])
         (Some POSIX_SPAWN_CLOEXEC_DEFAULT) (descriptor_table calm_os))) = {0, 1, 2, 5} \<and>
   descriptors (new_image
      (call_with False [Some ''/bin/true'', None] (environ calm_os) None None
         (CloseMultipleNowOrOnExec (STDERR_FILENO + 1) 5 (descriptor_table calm_os))))
     = {0, 1, 2, 5}"
proof -
  let ?ca = "call_with False [Some ''/bin/true'', None] (environ calm_os) (Some [0, 1, 2, 5])
      (Some POSIX_SPAWN_CLOEXEC_DEFAULT) (descriptor_table calm_os)"
  let ?co = "call_with False [Some ''/bin/true'', None] (environ calm_os) None None
      (CloseMultipleNowOrOnExec (STDERR_FILENO + 1) 5 (descriptor_table calm_os))"
  have p: "platform (unix_build Apple True) = Apple"
    "platform (unix_build OtherPosix True) \<noteq> Apple"
    "platform (unix_build AndroidLegacy True) \<noteq> Apple"
    by (simp_all add: unix_build_def)
  have reach: "reaches_call (unix_build Apple True) calm_os 5 True"
    "reaches_call (unix_build OtherPosix True) calm_os 5 True"
    "reaches_call (unix_build AndroidLegacy True) calm_os 5 True"
    by (simp_all add: reaches_call_def apple_preparations_def calm_os_def unix_build_def)
  have ca: "?ca = call_with False (c_strs [''/bin/true''])
      (case None of Some e \<Rightarrow> c_strs e | None \<Rightarrow> environ calm_os)
      (Some [0, 1, 2, 5]) (Some POSIX_SPAWN_CLOEXEC_DEFAULT) (descriptor_table calm_os)"
    by (simp add: c_strs_def c_str_def)
  have co: "?co = call_with False (c_strs [''/bin/true''])
      (case None of Some e \<Rightarrow> c_strs e | None \<Rightarrow> environ calm_os) None None
      (CloseMultipleNowOrOnExec (STDERR_FILENO + 1) 5 (descriptor_table calm_os))"
    by (simp add: c_strs_def c_str_def)
  have sub: "(0 :: int) \<le> 5" "{0, 1, 2, nat 5} \<subseteq> opened (descriptor_table calm_os)"
    "{0, 1, 2, nat 5} \<inter> close_on_exec (descriptor_table calm_os) = {}"
    by (simp_all add: calm_os_def)
  note other = C2_descriptor_policies [OF p(1) p(2) reach(1) reach(2) ca co]
  note android = C2_descriptor_policies [OF p(1) p(3) reach(1) reach(3) ca co]
  from other have 1: "map_option (calls \<circ> fst)
      (SpawnSubprocess (unix_build Apple True) calm_os [''/bin/true''] None 5 False True)
      = Some [(Child, ?ca)]"
    by blast
  from other have 2: "map_option (calls \<circ> fst)
      (SpawnSubprocess (unix_build OtherPosix True) calm_os [''/bin/true''] None 5 False True)
      = Some [(Child, ?co)]"
    by (simp add: unix_build_def)
  from android have 3: "map_option (calls \<circ> fst)
      (SpawnSubprocess (unix_build AndroidLegacy True) calm_os [''/bin/true''] None 5 False
         True)
      = Some [(Grandchild, ?co)]"
    by (simp add: unix_build_def)
  from other sub have "descriptors (new_image ?ca) = {0, 1, 2, nat 5} \<and>
      descriptors (new_image ?co) = {0, 1, 2, nat 5}"
    by blast
  then have 4: "descriptors (new_image ?ca) = {0, 1, 2, 5}"
    and 5: "descriptors (new_image ?co) = {0, 1, 2, 5}"
    by simp_all
  from p reach sub 1 2 3 4 5 show ?thesis
    by (intro conjI)
qed

text \<open>
  C2 as it is stated, the same descriptors for every \<open>preserve_fd\<close>, fails where
  \<open>preserve_fd\<close> is marked close-on-exec. With the descriptors \<open>0\<close>, \<open>1\<close>, \<open>2\<close>, \<open>5\<close> and \<open>7\<close>
  open, \<open>5\<close> marked and \<open>preserve_fd = 5\<close>, the inherit list of the Apple build hands
  descriptor \<open>5\<close> over; the closing of the other builds only leaves it out, and the
  image replacement closes it.
\<close>

theorem C2_marked_descriptor_differs:
  "map_option (calls \<circ> fst)
     (SpawnSubprocess (unix_build Apple True)
        (calm_os\<lparr>descriptor_table := \<lparr>opened = {0, 1, 2, 5, 7}, close_on_exec = {5}\<rparr>\<rparr>)
        [''/bin/true''] None 5 False True) =
     Some [(Child,
            call_with False [Some ''/bin/true'', None] (environ calm_os) (Some [0, 1, 2, 5])
              (Some POSIX_SPAWN_CLOEXEC_DEFAULT)
              \<lparr>opened = {0, 1, 2, 5, 7}, close_on_exec = {5}\<rparr>)] \<and>
   descriptors (new_image
      (call_with False [Some ''/bin/true'', None] (environ calm_os) (Some [0, 1, 2, 5])
         (Some POSIX_SPAWN_CLOEXEC_DEFAULT)
         \<lparr>opened = {0, 1, 2, 5, 7}, close_on_exec = {5}\<rparr>)) = {0, 1, 2, 5} \<and>
   map_option (calls \<circ> fst)
     (SpawnSubprocess (unix_build OtherPosix True)
        (calm_os\<lparr>descriptor_table := \<lparr>opened = {0, 1, 2, 5, 7}, close_on_exec = {5}\<rparr>\<rparr>)
        [''/bin/true''] None 5 False True) =
     Some [(Child,
            call_with False [Some ''/bin/true'', None] (environ calm_os) None None
              (CloseMultipleNowOrOnExec (STDERR_FILENO + 1) 5
                 \<lparr>opened = {0, 1, 2, 5, 7}, close_on_exec = {5}\<rparr>))] \<and>
   descriptors (new_image
      (call_with False [Some ''/bin/true'', None] (environ calm_os) None None
         (CloseMultipleNowOrOnExec (STDERR_FILENO + 1) 5
            \<lparr>opened = {0, 1, 2, 5, 7}, close_on_exec = {5}\<rparr>))) = {0, 1, 2} \<and>
   (5 :: nat) \<in> {0, 1, 2, 5} \<and> (5 :: nat) \<notin> {0, 1, 2}"
proof (intro conjI)
  show "descriptors (new_image
      (call_with False [Some ''/bin/true'', None] (environ calm_os) (Some [0, 1, 2, 5])
         (Some POSIX_SPAWN_CLOEXEC_DEFAULT)
         \<lparr>opened = {0, 1, 2, 5, 7}, close_on_exec = {5}\<rparr>)) = {0, 1, 2, 5}"
    by (auto simp add: descriptors_declarative)
  show "descriptors (new_image
      (call_with False [Some ''/bin/true'', None] (environ calm_os) None None
         (CloseMultipleNowOrOnExec (STDERR_FILENO + 1) 5
            \<lparr>opened = {0, 1, 2, 5, 7}, close_on_exec = {5}\<rparr>))) = {0, 1, 2}"
    by (auto simp add: descriptors_imperative)
qed (simp_all add: run_defs calm_os_def unix_build_def upto_STDERR_FILENO)

subsection \<open>Preserving a standard stream\<close>




end
